theory Spec2Isabelle
  imports Main "HOL-Library.Sublist" "HOL-Library.Log_Nat"
begin

section \<open>JavaScript strings\<close>

text \<open>
  A JavaScript string is modelled as a \<^typ>\<open>string\<close>; each \<^typ>\<open>char\<close> stands for one
  code unit below 256 (Latin-1). The optional values of the source (\<^verbatim>\<open>undefined\<close>,
  \<^verbatim>\<open>null\<close>) are \<^const>\<open>None\<close>.
\<close>

text \<open>\<^verbatim>\<open>WhiteSpace\<close> and \<^verbatim>\<open>LineTerminator\<close> of ECMAScript, as far as they lie below 256:
  TAB, LF, VT, FF, CR, SP and NBSP. \<^verbatim>\<open>trim\<close>, \<^verbatim>\<open>parseInt\<close> and the regular expression
  class \<^verbatim>\<open>\s\<close> all use this set.\<close>

definition isWhiteSpace :: "char \<Rightarrow> bool" where
  "isWhiteSpace c = (of_char c \<in> {9, 10, 11, 12, 13, 32, 160 :: nat})"

text \<open>The characters the regular expression \<^verbatim>\<open>.\<close> does not match: LF and CR.\<close>

definition isLineTerminator :: "char \<Rightarrow> bool" where
  "isLineTerminator c = (of_char c \<in> {10, 13 :: nat})"

definition isDigit :: "char \<Rightarrow> bool" where
  "isDigit c = (48 \<le> (of_char c :: nat) \<and> (of_char c :: nat) \<le> 57)"

text \<open>\<^verbatim>\<open>s.trim()\<close>\<close>

definition trim :: "string \<Rightarrow> string" where
  "trim s = rev (dropWhile isWhiteSpace (rev (dropWhile isWhiteSpace s)))"

text \<open>\<^verbatim>\<open>s.startsWith(p)\<close>\<close>

definition startsWith :: "string \<Rightarrow> string \<Rightarrow> bool" where
  "startsWith s p = prefix p s"

text \<open>The first occurrence of \<open>pat\<close> in a string: the text before it and the text after it.\<close>

fun find_first :: "string \<Rightarrow> string \<Rightarrow> (string \<times> string) option" where
  "find_first pat [] = (if pat = [] then Some ([], []) else None)"
| "find_first pat (c # cs) =
     (if prefix pat (c # cs) then Some ([], drop (length pat) (c # cs))
      else map_option (\<lambda>(b, a). (c # b, a)) (find_first pat cs))"

text \<open>\<^verbatim>\<open>s.includes(pat)\<close>\<close>

definition includes_str :: "string \<Rightarrow> string \<Rightarrow> bool" where
  "includes_str s pat = (find_first pat s \<noteq> None)"

text \<open>\<^verbatim>\<open>s.split(sep)\<close> for a non-empty separator string (the source splits at
  \<^verbatim>\<open>" "\<close> and at \<^verbatim>\<open>"--limit"\<close>); an empty separator splits into code units.\<close>

function split :: "string \<Rightarrow> string \<Rightarrow> string list" where
  "split s sep =
     (if sep = [] then map (\<lambda>c. [c]) s
      else (case find_first sep s of
              None \<Rightarrow> [s]
            | Some (b, a) \<Rightarrow> b # split a sep))"
  by pat_completeness auto

lemma find_first_after_length:
  "find_first pat s = Some (b, a) \<Longrightarrow> length b + length pat + length a = length s"
proof (induction s arbitrary: b)
  case Nil
  then show ?case by (auto split: if_splits)
next
  case (Cons c cs)
  show ?case
  proof (cases "prefix pat (c # cs)")
    case True
    then have "length pat \<le> length (c # cs)" by (rule prefix_length_le)
    with True Cons.prems show ?thesis by auto
  next
    case False
    with Cons.prems obtain b' where "find_first pat cs = Some (b', a)" and "b = c # b'"
      by auto
    with Cons.IH show ?thesis by fastforce
  qed
qed

termination split
proof (relation "measure (\<lambda>(s, sep). length s)")
  show "wf (measure (\<lambda>(s, sep). length s))" by simp
next
  fix s sep :: string and x2 :: "string \<times> string" and b a :: string
  assume "sep \<noteq> []" and "find_first sep s = Some x2" and "(b, a) = x2"
  then have "length b + length sep + length a = length s" and "sep \<noteq> []"
    using find_first_after_length [of sep s b a] by auto
  then show "((a, sep), (s, sep)) \<in> measure (\<lambda>(s, sep). length s)"
    by (cases sep) auto
qed

declare split.simps [simp del]

text \<open>\<^verbatim>\<open>parts.join(sep)\<close>\<close>

fun join :: "string list \<Rightarrow> string \<Rightarrow> string" where
  "join [] sep = []"
| "join [p] sep = p"
| "join (p # q # ps) sep = p @ sep @ join (q # ps) sep"

text \<open>\<^verbatim>\<open>GetSubstitution\<close> of ECMAScript for a string pattern (no capture groups): in the
  replacement text \<^verbatim>\<open>$$\<close> is a dollar sign, \<^verbatim>\<open>$&\<close> the matched text, \<^verbatim>\<open>$`\<close> the text
  before the match and \<^verbatim>\<open>$'\<close> the text after it; every other character stands for
  itself.\<close>

fun GetSubstitution :: "string \<Rightarrow> string \<Rightarrow> string \<Rightarrow> string \<Rightarrow> string" where
  "GetSubstitution m b a [] = []"
| "GetSubstitution m b a [c] = [c]"
| "GetSubstitution m b a (c # d # cs) =
     (if c = CHR ''$'' \<and> d = CHR ''$'' then CHR ''$'' # GetSubstitution m b a cs
      else if c = CHR ''$'' \<and> d = CHR ''&'' then m @ GetSubstitution m b a cs
      else if c = CHR ''$'' \<and> d = CHR 0x60 then b @ GetSubstitution m b a cs
      else if c = CHR ''$'' \<and> d = CHR 0x27 then a @ GetSubstitution m b a cs
      else c # GetSubstitution m b a (d # cs))"

text \<open>\<^verbatim>\<open>s.replace(pat, rep)\<close> with a string pattern: only the first occurrence is
  replaced.\<close>

definition replace :: "string \<Rightarrow> string \<Rightarrow> string \<Rightarrow> string" where
  "replace s pat rep =
     (case find_first pat s of
        None \<Rightarrow> s
      | Some (b, a) \<Rightarrow> b @ GetSubstitution pat b a rep @ a)"

text \<open>\<^verbatim>\<open>x || d\<close> on an optional string: the empty string and \<^verbatim>\<open>undefined\<close> are falsy.\<close>

definition or_else :: "string option \<Rightarrow> string \<Rightarrow> string" where
  "or_else x d = (case x of None \<Rightarrow> d | Some s \<Rightarrow> if s = [] then d else s)"

text \<open>Truthiness of an optional string, as in \<^verbatim>\<open>if (question)\<close>.\<close>

definition truthy :: "string option \<Rightarrow> bool" where
  "truthy x = (case x of None \<Rightarrow> False | Some s \<Rightarrow> s \<noteq> [])"

section \<open>JavaScript numbers\<close>

text \<open>
  The numbers the program computes with are message limits: \<^verbatim>\<open>NaN\<close>, the infinities, or
  an integer-valued double, held as the integer it denotes (\<open>Num 0\<close> stands for both
  zeros, which the program cannot tell apart).
\<close>

datatype js_number = NaN | Num int | PosInfinity | NegInfinity

text \<open>The Number value for a positive integer: the nearest double, ties to even, and
  infinity from \<open>2 ^ 1024\<close> on. Integers of at most 53 bits are exact.\<close>

definition round_double :: "int \<Rightarrow> int" where
  "round_double n =
     (let k = nat (bitlen n) in
      if k \<le> 53 then n
      else (let e = k - 53; q = n div 2 ^ e; r = n mod 2 ^ e in
            (if 2 ^ e < 2 * r \<or> (2 * r = 2 ^ e \<and> odd q) then q + 1 else q) * 2 ^ e))"

definition Number_of :: "int \<Rightarrow> int \<Rightarrow> js_number" where
  "Number_of sign n =
     (let v = round_double n in
      if 2 ^ 1024 \<le> v then (if sign < 0 then NegInfinity else PosInfinity)
      else Num (sign * v))"

text \<open>The value of a digit in a radix of at most 16, if it is one.\<close>

definition digit_value :: "nat \<Rightarrow> char \<Rightarrow> nat option" where
  "digit_value radix c =
     (let n = (of_char c :: nat);
          v = (if 48 \<le> n \<and> n \<le> 57 then Some (n - 48)
               else if 97 \<le> n \<and> n \<le> 102 then Some (n - 87)
               else if 65 \<le> n \<and> n \<le> 70 then Some (n - 55)
               else None)
      in case v of None \<Rightarrow> None | Some d \<Rightarrow> if d < radix then Some d else None)"

definition digits_value :: "nat \<Rightarrow> string \<Rightarrow> int" where
  "digits_value radix z = foldl (\<lambda>acc c. acc * int radix + int (the (digit_value radix c))) 0 z"

text \<open>\<^verbatim>\<open>parseInt(s)\<close> with no radix argument: leading white space is skipped, a sign is
  read, a prefix \<^verbatim>\<open>0x\<close> or \<^verbatim>\<open>0X\<close> selects radix 16, and the longest run of digits is
  read; no digit gives \<^verbatim>\<open>NaN\<close>.\<close>

definition parseInt :: "string \<Rightarrow> js_number" where
  "parseInt s =
     (let s1 = dropWhile isWhiteSpace s;
          sign = (if s1 \<noteq> [] \<and> hd s1 = CHR ''-'' then - 1 else 1 :: int);
          s2 = (if s1 \<noteq> [] \<and> (hd s1 = CHR ''+'' \<or> hd s1 = CHR ''-'') then tl s1 else s1);
          hex = (prefix ''0x'' s2 \<or> prefix ''0X'' s2);
          radix = (if hex then 16 else 10 :: nat);
          s3 = (if hex then drop 2 s2 else s2);
          z = takeWhile (\<lambda>c. digit_value radix c \<noteq> None) s3
      in if z = [] then NaN else Number_of sign (digits_value radix z))"

text \<open>\<^verbatim>\<open>n || 10\<close>: \<^verbatim>\<open>NaN\<close> and zero are falsy.\<close>

definition or_10 :: "js_number \<Rightarrow> js_number" where
  "or_10 n = (if n = NaN \<or> n = Num 0 then Num 10 else n)"

section \<open>JavaScript maps\<close>

text \<open>
  A \<^verbatim>\<open>Map\<close> object keeps its entries, in insertion order, in an internal slot; its own
  enumerable properties are a separate thing, and they are what \<^verbatim>\<open>Object.keys\<close> lists.
\<close>

record js_map =
  entries :: "(string \<times> string) list"
  own_keys :: "string list"

text \<open>\<^verbatim>\<open>new Map()\<close>\<close>

definition new_Map :: js_map where
  "new_Map = \<lparr>entries = [], own_keys = []\<rparr>"

fun set_entry :: "string \<Rightarrow> string \<Rightarrow> (string \<times> string) list \<Rightarrow> (string \<times> string) list" where
  "set_entry k v [] = [(k, v)]"
| "set_entry k v ((k', v') # es) =
     (if k = k' then (k, v) # es else (k', v') # set_entry k v es)"

text \<open>\<^verbatim>\<open>m.set(k, v)\<close>\<close>

definition Map_set :: "js_map \<Rightarrow> string \<Rightarrow> string \<Rightarrow> js_map" where
  "Map_set m k v = m\<lparr>entries := set_entry k v (entries m)\<rparr>"

text \<open>\<^verbatim>\<open>m.get(k)\<close>\<close>

definition Map_get :: "js_map \<Rightarrow> string \<Rightarrow> string option" where
  "Map_get m k = map_of (entries m) k"

text \<open>\<^verbatim>\<open>Object.keys(m)\<close>\<close>

definition Object_keys :: "js_map \<Rightarrow> string list" where
  "Object_keys m = own_keys m"

section \<open>The collaborators\<close>

text \<open>\<^verbatim>\<open>interface SlackMessage\<close>\<close>

record SlackMessage =
  msg_text :: string
  msg_user :: string
  msg_channel :: string
  msg_thread_ts :: "string option"

text \<open>An entry of the prompt sent to the model: \<^verbatim>\<open>{role: "system", content}\<close> or
  \<^verbatim>\<open>{role: "user", content, user}\<close>.\<close>

datatype chat_message =
    SystemMessage string
  | UserMessage string string

text \<open>
  The calls the program makes to the Slack client and to the OpenAI client, with their
  arguments. A run of the program is described by the list of calls it has made, oldest
  first. (Console output is not a call.)
\<close>

datatype call =
    conversations_replies string string js_number
  | conversations_history string js_number
  | users_info string
  | chat_completions_create "chat_message list"
  | chat_postMessage string string "string option"

text \<open>What an awaited call does: it throws, or it returns a value.\<close>

datatype 'a outcome = Throws | Returns 'a

text \<open>
  The behaviour of the collaborators, which the program does not control: what each call
  answers, given the calls made before it.
  \<^item> \<open>answer_replies\<close>, \<open>answer_history\<close>: the field \<^verbatim>\<open>messages\<close> of the result, if present;
  \<^item> \<open>answer_users_info\<close>: \<^verbatim>\<open>userInfo.user?.name\<close>;
  \<^item> \<open>answer_create\<close>: \<^verbatim>\<open>message.content\<close> of each element of \<^verbatim>\<open>choices\<close> (a response on
    which reading \<^verbatim>\<open>choices[0].message.content\<close> throws for another reason than an
    empty \<^verbatim>\<open>choices\<close> counts as \<open>Throws\<close>).
  What \<^verbatim>\<open>chat.postMessage\<close> answers is never looked at.
\<close>

record world =
  answer_replies :: "call list \<Rightarrow> string \<Rightarrow> string \<Rightarrow> js_number \<Rightarrow> SlackMessage list option outcome"
  answer_history :: "call list \<Rightarrow> string \<Rightarrow> js_number \<Rightarrow> SlackMessage list option outcome"
  answer_users_info :: "call list \<Rightarrow> string \<Rightarrow> string option outcome"
  answer_create :: "call list \<Rightarrow> chat_message list \<Rightarrow> string option list outcome"

section \<open>The program\<close>

text \<open>\<^verbatim>\<open>fetchRecentMessages\<close>: the messages, and the calls made so far.\<close>

definition fetchRecentMessages ::
  "world \<Rightarrow> call list \<Rightarrow> string \<Rightarrow> js_number \<Rightarrow> string option \<Rightarrow> SlackMessage list \<times> call list" where
  "fetchRecentMessages w tr channelId limit thread_ts =
     (let (c, result) =
            (if truthy thread_ts
             then (conversations_replies channelId (or_else thread_ts []) limit,
                   answer_replies w tr channelId (or_else thread_ts []) limit)
             else (conversations_history channelId limit,
                   answer_history w tr channelId limit))
      in (case result of
            Returns (Some messages) \<Rightarrow> (messages, tr @ [c])
          | Returns None \<Rightarrow> ([], tr @ [c])
          | Throws \<Rightarrow> ([], tr @ [c])))"

text \<open>\<^verbatim>\<open>systemPrompt\<close>\<close>

definition systemPrompt :: "string option \<Rightarrow> chat_message" where
  "systemPrompt question = SystemMessage
     (''You are a helpful assistant. You will summarize the conversation using Korean only. ''
      @ ''You should answer the question if the last message starts with ''
      @ [CHR 0x60] @ ''@#*&Question: '' @ [CHR 0x60]
      @ '' else you just create a helpful summary WITHOUT ORIGINAL MESSAGES. ''
      @ ''The summary should contain speaker names. ''
      @ ''Do not include the messages directly in the summary.'')"

text \<open>The loop of \<^verbatim>\<open>getUserMap\<close>, from the map built so far; a lookup that throws ends
  \<^verbatim>\<open>getUserMap\<close> with that exception.\<close>

fun getUserMap_loop ::
  "world \<Rightarrow> call list \<Rightarrow> js_map \<Rightarrow> string list \<Rightarrow> js_map outcome \<times> call list" where
  "getUserMap_loop w tr userMap [] = (Returns userMap, tr)"
| "getUserMap_loop w tr userMap (user # users) =
     (case answer_users_info w tr user of
        Throws \<Rightarrow> (Throws, tr @ [users_info user])
      | Returns name \<Rightarrow>
          getUserMap_loop w (tr @ [users_info user])
            (Map_set userMap user (or_else name ''Unknown'')) users)"

definition getUserMap :: "world \<Rightarrow> call list \<Rightarrow> string list \<Rightarrow> js_map outcome \<times> call list" where
  "getUserMap w tr users = getUserMap_loop w tr new_Map users"

text \<open>The inner loop of \<^verbatim>\<open>summarizeText\<close>, over \<^verbatim>\<open>Object.keys(usersMap)\<close>: the new value of
  \<^verbatim>\<open>chat.text\<close>.\<close>

definition rewrite_mentions :: "js_map \<Rightarrow> string \<Rightarrow> string" where
  "rewrite_mentions usersMap text0 =
     foldl (\<lambda>t userId. replace t (''<@'' @ userId @ ''>'') (or_else (Map_get usersMap userId) ''Unknown''))
       text0 (Object_keys usersMap)"

text \<open>The body of the outer loop, for one message: the message object afterwards, and
  the entry pushed, if any.\<close>

definition transcript_step :: "js_map \<Rightarrow> SlackMessage \<Rightarrow> SlackMessage \<times> chat_message option" where
  "transcript_step usersMap chat =
     (if startsWith (msg_text chat) ''!summarize'' then (chat, None)
      else (let speaker = or_else (Map_get usersMap (msg_user chat)) ''Unknown'' in
        if speaker = ''summarizer'' then (chat, None)
        else if startsWith (msg_text chat) ''<@U07AF4DJWRH>'' then (chat, None)
        else (let chat' = chat\<lparr>msg_text := rewrite_mentions usersMap (msg_text chat)\<rparr>
              in (chat', Some (UserMessage (speaker @ '': '' @ msg_text chat') speaker)))))"

text \<open>The outer loop: the message objects afterwards, and \<^verbatim>\<open>messages\<close>.\<close>

fun transcript_loop :: "js_map \<Rightarrow> SlackMessage list \<Rightarrow> SlackMessage list \<times> chat_message list" where
  "transcript_loop usersMap [] = ([], [])"
| "transcript_loop usersMap (chat # chats) =
     (let (chat', pushed) = transcript_step usersMap chat;
          (chats', messages) = transcript_loop usersMap chats
      in (chat' # chats', (case pushed of None \<Rightarrow> messages | Some m \<Rightarrow> m # messages)))"

text \<open>The entry pushed for the question, when it is truthy.\<close>

definition question_entry :: "string option \<Rightarrow> chat_message list" where
  "question_entry question =
     (case question of
        None \<Rightarrow> []
      | Some q \<Rightarrow> if q = [] then [] else [UserMessage (''@#*&Question: '' @ q) ''definetly not a bot''])"

text \<open>\<^verbatim>\<open>summarizeText\<close>: the text returned, the message objects afterwards, and the calls
  made so far. The \<^verbatim>\<open>catch\<close> covers the whole body.\<close>

definition summarizeText ::
  "world \<Rightarrow> call list \<Rightarrow> SlackMessage list \<Rightarrow> string option \<Rightarrow> string \<times> SlackMessage list \<times> call list" where
  "summarizeText w tr chats question =
     (case getUserMap w tr (map msg_user chats) of
        (Throws, tr1) \<Rightarrow> (''Error summarizing text.'', chats, tr1)
      | (Returns usersMap, tr1) \<Rightarrow>
          (let (chats', messages) = transcript_loop usersMap chats;
               systemPrmpt = systemPrompt question;
               prompt = systemPrmpt # messages @ question_entry question;
               tr2 = tr1 @ [chat_completions_create prompt]
           in (case answer_create w tr1 prompt of
                 Throws \<Rightarrow> (''Error summarizing text.'', chats', tr2)
               | Returns [] \<Rightarrow> (''Error summarizing text.'', chats', tr2)
               | Returns (c # cs) \<Rightarrow> (or_else c ''No summary found.'', chats', tr2))))"

text \<open>\<^verbatim>\<open>postMessage\<close>: an exception of the call is caught and logged.\<close>

definition postMessage :: "call list \<Rightarrow> string \<Rightarrow> string \<Rightarrow> string option \<Rightarrow> call list" where
  "postMessage tr channelId text0 threadTs = tr @ [chat_postMessage channelId text0 threadTs]"

text \<open>\<^verbatim>\<open>handleSummarizeRequest\<close>\<close>

definition handleSummarizeRequest ::
  "world \<Rightarrow> call list \<Rightarrow> string \<Rightarrow> string option \<Rightarrow> string option \<Rightarrow> js_number \<Rightarrow> call list" where
  "handleSummarizeRequest w tr channelId question threadTs limit =
     (let (messages, tr1) = fetchRecentMessages w tr channelId limit threadTs in
      if messages \<noteq> [] then
        (let (summary, chats', tr2) = summarizeText w tr1 messages question
         in postMessage tr2 channelId summary threadTs)
      else tr1)"

text \<open>\<^verbatim>\<open>options\<close>, in the order \<^verbatim>\<open>Object.keys\<close> lists its properties.\<close>

definition options :: "(string \<times> string) list" where
  "options =
     [(''--help'', ''Show help''),
      (''--version'', ''Show version''),
      (''--limit'', ''Set the limit of messages to summarize'')]"

definition helpText :: string where
  "helpText =
     [CHR 0x60, CHR 0x60, CHR 0x60] @ ''Usage: @Summarizer [summarize|question] [options]'' @ [CHR 10]
     @ '' If no question is provided but '' @ [CHR 0x27] @ ''summarize'' @ [CHR 0x27]
     @ '', the last 10 messages will be summarized.'' @ [CHR 10]
     @ join (map (\<lambda>(key, v). key @ '': '' @ v) options) [CHR 10]
     @ [CHR 0x60, CHR 0x60, CHR 0x60]"

text \<open>The prompt of a mention: \<^verbatim>\<open>text.split(" ").slice(1).join(" ")\<close>.\<close>

definition mention_prompt :: "string \<Rightarrow> string" where
  "mention_prompt text0 = join (drop 1 (split text0 '' '')) '' ''"

text \<open>
  The question and the limit the mention handler computes from the prompt, once
  \<^verbatim>\<open>--help\<close> and \<^verbatim>\<open>--version\<close> are excluded. \<open>Throws\<close> is the \<^verbatim>\<open>TypeError\<close> of
  \<^verbatim>\<open>parts[1].trim()\<close> on a missing \<^verbatim>\<open>parts[1]\<close>.
\<close>

definition mention_request :: "string \<Rightarrow> (string option \<times> js_number) outcome" where
  "mention_request prompt0 =
     (let r = (if includes_str prompt0 ''--limit''
               then (case split prompt0 ''--limit'' of
                       p0 # p1 # ps \<Rightarrow> Returns (p0, or_10 (parseInt (trim p1)))
                     | _ \<Rightarrow> Throws)
               else Returns (prompt0, Num 10))
      in (case r of
            Throws \<Rightarrow> Throws
          | Returns (prompt, limit) \<Rightarrow>
              Returns (if trim prompt \<noteq> ''summarize'' then Some prompt else None, limit)))"

text \<open>The handler of \<^verbatim>\<open>app_mention\<close> events, on the event's \<^verbatim>\<open>channel\<close>, \<^verbatim>\<open>thread_ts\<close> and
  \<^verbatim>\<open>text\<close>: the calls made so far. An exception is caught and logged.\<close>

definition app_mention :: "world \<Rightarrow> call list \<Rightarrow> string \<Rightarrow> string option \<Rightarrow> string \<Rightarrow> call list" where
  "app_mention w tr channel thread_ts text0 =
     (let prompt = mention_prompt text0 in
      if trim prompt = ''--help'' then postMessage tr channel helpText thread_ts
      else if trim prompt = ''--version'' then postMessage tr channel ''v1.0.0'' thread_ts
      else (case mention_request prompt of
              Throws \<Rightarrow> tr
            | Returns (question, limit) \<Rightarrow>
                handleSummarizeRequest w tr channel question thread_ts limit))"

text \<open>
  The group \<^verbatim>\<open>(".*")?\<close> at the start of a string: \<^verbatim>\<open>.*\<close> is greedy and stays on the line,
  so the group ends at the last double quote of the line that follows the opening one.
  The result is the group, if it takes part in the match, and the rest of the string.
\<close>

definition quoted_group :: "string \<Rightarrow> string option \<times> string" where
  "quoted_group s =
     (case s of
        [] \<Rightarrow> (None, s)
      | c # cs \<Rightarrow>
          (if c \<noteq> CHR 0x22 then (None, s)
           else (let line = takeWhile (\<lambda>d. \<not> isLineTerminator d) cs;
                     inner = rev (dropWhile (\<lambda>d. d \<noteq> CHR 0x22) (rev line))
                 in if inner = [] then (None, s)
                    else (Some (c # inner), drop (length inner) cs))))"

text \<open>
  \<^verbatim>\<open>text.match(/!summarize\s*(".*")?\s*([0-9]*)/)\<close>: the capture groups 1 and 2 of the
  leftmost match, if there is one. Everything after \<^verbatim>\<open>!summarize\<close> can match the empty
  string, so the match starts at the first occurrence of \<^verbatim>\<open>!summarize\<close> and every greedy
  part takes its longest choice.
\<close>

definition message_matches :: "string \<Rightarrow> (string option \<times> string) option" where
  "message_matches text0 =
     (case find_first ''!summarize'' text0 of
        None \<Rightarrow> None
      | Some (b, a) \<Rightarrow>
          (let s1 = dropWhile isWhiteSpace a;
               (g1, s2) = quoted_group s1;
               s3 = dropWhile isWhiteSpace s2;
               g2 = takeWhile isDigit s3
           in Some (g1, g2)))"

text \<open>The listener of messages that match the pattern, on the message: the calls made
  so far. A message that does not match does not reach the listener.\<close>

definition app_message :: "world \<Rightarrow> call list \<Rightarrow> SlackMessage \<Rightarrow> call list" where
  "app_message w tr message =
     (case message_matches (msg_text message) of
        None \<Rightarrow> tr
      | Some (g1, g2) \<Rightarrow>
          (let question = g1;
               limit = or_10 (parseInt g2)
           in handleSummarizeRequest w tr (msg_channel message) question (msg_thread_ts message) limit))"

section \<open>Observing a run\<close>

text \<open>The calls to the Responder, and the limit of a call to the Message Fetcher.\<close>

fun is_post :: "call \<Rightarrow> bool" where
  "is_post (chat_postMessage c t ts) = True"
| "is_post _ = False"

fun fetch_limit :: "call \<Rightarrow> js_number option" where
  "fetch_limit (conversations_replies c ts l) = Some l"
| "fetch_limit (conversations_history c l) = Some l"
| "fetch_limit _ = None"

text \<open>A limit that is a positive integer.\<close>

definition positive_integer :: "js_number \<Rightarrow> bool" where
  "positive_integer n = (case n of Num i \<Rightarrow> 0 < i | _ \<Rightarrow> False)"

text \<open>The call \<^const>\<open>fetchRecentMessages\<close> makes.\<close>

definition fetch_call :: "string \<Rightarrow> js_number \<Rightarrow> string option \<Rightarrow> call" where
  "fetch_call channelId limit thread_ts =
     (if truthy thread_ts then conversations_replies channelId (or_else thread_ts []) limit
      else conversations_history channelId limit)"

text \<open>A limit that is a positive number, and one that is a negative number.\<close>

definition positive_number :: "js_number \<Rightarrow> bool" where
  "positive_number n = (case n of Num i \<Rightarrow> 0 < i | PosInfinity \<Rightarrow> True | _ \<Rightarrow> False)"

definition negative_number :: "js_number \<Rightarrow> bool" where
  "negative_number n = (case n of Num i \<Rightarrow> i < 0 | NegInfinity \<Rightarrow> True | _ \<Rightarrow> False)"

section \<open>Example runs\<close>

text \<open>A channel with one message, which mentions its own author; the author resolves
  to the name \<open>alice\<close>, and the model answers \<open>ok\<close>.\<close>

definition example_message :: SlackMessage where
  "example_message =
     \<lparr>msg_text = ''hi <@U1>'', msg_user = ''U1'', msg_channel = ''C1'', msg_thread_ts = None\<rparr>"

definition example_world :: world where
  "example_world =
     \<lparr>answer_replies = (\<lambda>h c ts l. Throws),
      answer_history = (\<lambda>h c l. Returns (Some [example_message])),
      answer_users_info = (\<lambda>h u. if u = ''U1'' then Returns (Some ''alice'') else Returns None),
      answer_create = (\<lambda>h p. Returns [Some ''ok''])\<rparr>"

text \<open>The same, with a model whose invocation throws.\<close>

definition failing_model_world :: world where
  "failing_model_world = example_world\<lparr>answer_create := (\<lambda>h p. Throws)\<rparr>"

text \<open>The same, with a user lookup that throws.\<close>

definition failing_lookup_world :: world where
  "failing_lookup_world = example_world\<lparr>answer_users_info := (\<lambda>h u. Throws)\<rparr>"

text \<open>The same, with a user lookup that throws only when it is the first call of a run,
  and with one that throws only for an identifier no message has.\<close>

definition flaky_lookup_world :: world where
  "flaky_lookup_world =
     example_world\<lparr>answer_users_info := (\<lambda>h u. if h = [] then Throws else Returns (Some ''alice''))\<rparr>"

definition other_lookup_world :: world where
  "other_lookup_world =
     example_world\<lparr>answer_users_info :=
       (\<lambda>h u. if u = ''U7'' then Throws else if u = ''U1'' then Returns (Some ''alice'') else Returns None)\<rparr>"

text \<open>A command message in a channel.\<close>

definition quoted_question :: string where
  "quoted_question = [CHR 0x22] @ ''what was decided?'' @ [CHR 0x22]"

definition question_message :: SlackMessage where
  "question_message =
     \<lparr>msg_text = ''!summarize '' @ quoted_question @ '' 5'',
      msg_user = ''U2'', msg_channel = ''C1'', msg_thread_ts = None\<rparr>"

section \<open>The user map\<close>

lemma map_of_set_entry: "map_of (set_entry k v es) = (map_of es)(k \<mapsto> v)"
  by (induction es) auto

lemma Map_get_Map_set: "Map_get (Map_set m k v) u = (if u = k then Some v else Map_get m u)"
  by (simp add: Map_get_def Map_set_def map_of_set_entry)

lemma Object_keys_Map_set: "Object_keys (Map_set m k v) = Object_keys m"
  by (simp add: Object_keys_def Map_set_def)

lemma getUserMap_loop_Object_keys:
  "getUserMap_loop w tr m0 users = (Returns m, tr') \<Longrightarrow> Object_keys m = Object_keys m0"
  by (induction users arbitrary: tr m0) (auto simp: Object_keys_Map_set split: outcome.splits)

lemma getUserMap_Object_keys:
  "getUserMap w tr users = (Returns m, tr') \<Longrightarrow> Object_keys m = []"
  using getUserMap_loop_Object_keys [of w tr new_Map users m tr']
  by (simp add: getUserMap_def Object_keys_def new_Map_def)

lemma rewrite_mentions_no_keys: "Object_keys m = [] \<Longrightarrow> rewrite_mentions m t = t"
  by (simp add: rewrite_mentions_def)

lemma transcript_step_no_keys:
  "Object_keys m = [] \<Longrightarrow> fst (transcript_step m chat) = chat"
  by (simp add: transcript_step_def rewrite_mentions_no_keys Let_def)

lemma transcript_loop_no_keys:
  "Object_keys m = [] \<Longrightarrow> fst (transcript_loop m chats) = chats"
  by (induction chats) (auto simp: transcript_step_no_keys split: prod.splits dest: arg_cong [where f = fst])

section \<open>The calls of each stage\<close>

lemma getUserMap_loop_returns_trace:
  "getUserMap_loop w tr m0 users = (Returns m, tr') \<Longrightarrow> tr' = tr @ map users_info users"
proof (induction users arbitrary: tr m0)
  case Nil
  then show ?case by simp
next
  case (Cons user users)
  from Cons.prems obtain name where
    "getUserMap_loop w (tr @ [users_info user]) (Map_set m0 user (or_else name ''Unknown'')) users
       = (Returns m, tr')"
    by (auto split: outcome.splits)
  from Cons.IH [OF this] show ?case by simp
qed

lemma getUserMap_loop_trace:
  "\<exists>us. snd (getUserMap_loop w tr m0 users) = tr @ map users_info us"
proof (induction users arbitrary: tr m0)
  case Nil
  have "snd (getUserMap_loop w tr m0 []) = tr @ map users_info []" by simp
  then show ?case by blast
next
  case (Cons user users)
  show ?case
  proof (cases "answer_users_info w tr user")
    case Throws
    then have "snd (getUserMap_loop w tr m0 (user # users)) = tr @ map users_info [user]" by simp
    then show ?thesis by blast
  next
    case (Returns name)
    from Cons.IH [of "tr @ [users_info user]" "Map_set m0 user (or_else name ''Unknown'')"]
    obtain us where "snd (getUserMap_loop w (tr @ [users_info user])
        (Map_set m0 user (or_else name ''Unknown'')) users) = (tr @ [users_info user]) @ map users_info us"
      by blast
    with Returns have "snd (getUserMap_loop w tr m0 (user # users)) = tr @ map users_info (user # us)"
      by simp
    then show ?thesis by blast
  qed
qed

lemma fetchRecentMessages_trace:
  "snd (fetchRecentMessages w tr ch l ts) =
     tr @ [if truthy ts then conversations_replies ch (or_else ts []) l else conversations_history ch l]"
  by (simp add: fetchRecentMessages_def split: outcome.splits option.splits)

lemma or_else_Unknown_nonempty: "or_else name ''Unknown'' \<noteq> []"
  by (simp add: or_else_def split: option.splits)

lemma getUserMap_loop_dom:
  "getUserMap_loop w tr m0 users = (Returns m, tr') \<Longrightarrow>
   u \<in> set users \<or> (\<exists>n. Map_get m0 u = Some n \<and> n \<noteq> []) \<Longrightarrow>
   \<exists>n. Map_get m u = Some n \<and> n \<noteq> []"
proof (induction users arbitrary: tr m0)
  case Nil
  then show ?case by simp
next
  case (Cons user users)
  from Cons.prems(1) obtain name where
    loop: "getUserMap_loop w (tr @ [users_info user]) (Map_set m0 user (or_else name ''Unknown'')) users
       = (Returns m, tr')"
    by (auto split: outcome.splits)
  from Cons.prems(2) have "u \<in> set users \<or>
      (\<exists>n. Map_get (Map_set m0 user (or_else name ''Unknown'')) u = Some n \<and> n \<noteq> [])"
    by (auto simp: Map_get_Map_set or_else_Unknown_nonempty)
  with Cons.IH [OF loop] show ?case .
qed

section \<open>The transcript entries\<close>

text \<open>
  Claim C10. For a user map that \<^const>\<open>getUserMap\<close> returned, \<^verbatim>\<open>Object.keys\<close> of the map is
  empty, so for every message the loop body leaves the message object as it is and,
  when no skip rule applies, pushes the entry whose content is the resolved speaker
  name, a colon and a space, and the message's original text. The whole loop and
  \<^const>\<open>summarizeText\<close> leave every message object unchanged.
\<close>

theorem entry_keeps_original_text:
  assumes "getUserMap w tr users = (Returns usersMap, tr')"
  shows "Object_keys usersMap = [] \<and>
         (\<forall>chat. transcript_step usersMap chat =
            (let speaker = or_else (Map_get usersMap (msg_user chat)) ''Unknown'' in
             (chat,
              if startsWith (msg_text chat) ''!summarize'' \<or> speaker = ''summarizer''
                 \<or> startsWith (msg_text chat) ''<@U07AF4DJWRH>''
              then None
              else Some (UserMessage (speaker @ '': '' @ msg_text chat) speaker)))) \<and>
         fst (transcript_loop usersMap chats) = chats \<and>
         fst (snd (summarizeText w tr chats0 question)) = chats0"
proof -
  from assms have keys: "Object_keys usersMap = []" by (rule getUserMap_Object_keys)
  have step: "\<forall>chat. transcript_step usersMap chat =
            (let speaker = or_else (Map_get usersMap (msg_user chat)) ''Unknown'' in
             (chat,
              if startsWith (msg_text chat) ''!summarize'' \<or> speaker = ''summarizer''
                 \<or> startsWith (msg_text chat) ''<@U07AF4DJWRH>''
              then None
              else Some (UserMessage (speaker @ '': '' @ msg_text chat) speaker)))"
    by (simp add: transcript_step_def rewrite_mentions_no_keys [OF keys] Let_def)
  have loop: "fst (transcript_loop usersMap chats) = chats"
    using keys by (rule transcript_loop_no_keys)
  have "fst (snd (summarizeText w tr chats0 question)) = chats0"
  proof (cases "getUserMap w tr (map msg_user chats0)")
    case (Pair r tr1)
    show ?thesis
    proof (cases r)
      case Throws
      with Pair show ?thesis by (simp add: summarizeText_def)
    next
      case (Returns m)
      with Pair have "Object_keys m = []" by (simp add: getUserMap_Object_keys)
      then have "fst (transcript_loop m chats0) = chats0" by (rule transcript_loop_no_keys)
      with Pair Returns show ?thesis
        by (auto simp: summarizeText_def Let_def split: prod.splits outcome.splits list.splits)
    qed
  qed
  with keys step loop show ?thesis by blast
qed

text \<open>The user map of the example channel.\<close>

lemma getUserMap_example:
  "getUserMap example_world [] [''U1''] =
     (Returns \<lparr>entries = [(''U1'', ''alice'')], own_keys = []\<rparr>, [users_info ''U1''])"
  by (simp add: getUserMap_def example_world_def new_Map_def Map_set_def or_else_def)

text \<open>Claim C10 in the example channel: the mention token stays in the entry.\<close>

theorem entry_keeps_original_text_witness:
  "getUserMap example_world [] [''U1''] =
     (Returns \<lparr>entries = [(''U1'', ''alice'')], own_keys = []\<rparr>, [users_info ''U1'']) \<and>
   transcript_step \<lparr>entries = [(''U1'', ''alice'')], own_keys = []\<rparr> example_message =
     (example_message, Some (UserMessage ''alice: hi <@U1>'' ''alice''))"
proof -
  note h = getUserMap_example
  from entry_keeps_original_text [OF h, of "[]" "[]" None]
  have "transcript_step \<lparr>entries = [(''U1'', ''alice'')], own_keys = []\<rparr> example_message =
     (example_message, Some (UserMessage ''alice: hi <@U1>'' ''alice''))"
    by (simp add: Map_get_def or_else_def startsWith_def example_message_def)
  with h show ?thesis by simp
qed

text \<open>
  Claim C6. For a user map that \<^const>\<open>getUserMap\<close> returned, rewriting a text twice gives
  what rewriting it once gives, and running the loop body again on the message object
  it left gives the same message object and the same entry.
\<close>

theorem rewrite_idempotent:
  assumes "getUserMap w tr users = (Returns usersMap, tr')"
  shows "rewrite_mentions usersMap (rewrite_mentions usersMap t) = rewrite_mentions usersMap t \<and>
         transcript_step usersMap (fst (transcript_step usersMap chat)) = transcript_step usersMap chat"
proof -
  from assms have keys: "Object_keys usersMap = []" by (rule getUserMap_Object_keys)
  then show ?thesis
    by (simp add: rewrite_mentions_no_keys transcript_step_no_keys)
qed

text \<open>Claim C6 in the example channel.\<close>

theorem rewrite_idempotent_witness:
  "getUserMap example_world [] [''U1''] =
     (Returns \<lparr>entries = [(''U1'', ''alice'')], own_keys = []\<rparr>, [users_info ''U1'']) \<and>
   rewrite_mentions \<lparr>entries = [(''U1'', ''alice'')], own_keys = []\<rparr>
     (rewrite_mentions \<lparr>entries = [(''U1'', ''alice'')], own_keys = []\<rparr> ''hi <@U1>'') =
   rewrite_mentions \<lparr>entries = [(''U1'', ''alice'')], own_keys = []\<rparr> ''hi <@U1>''"
  using rewrite_idempotent [OF getUserMap_example, of "''hi <@U1>''" example_message] getUserMap_example
  by simp

text \<open>The run of \<^const>\<open>summarizeText\<close> on the example channel.\<close>

lemma summarizeText_example:
  "summarizeText example_world [] [example_message] None =
     (''ok'', [example_message],
      [users_info ''U1'',
       chat_completions_create [systemPrompt None, UserMessage ''alice: hi <@U1>'' ''alice'']])"
proof -
  have create: "\<And>h p. answer_create example_world h p = Returns [Some ''ok'']"
    by (simp add: example_world_def)
  have users: "map msg_user [example_message] = [''U1'']"
    by (simp add: example_message_def)
  have step: "transcript_step \<lparr>entries = [(''U1'', ''alice'')], own_keys = []\<rparr> example_message =
     (example_message, Some (UserMessage ''alice: hi <@U1>'' ''alice''))"
    by (simp add: transcript_step_def rewrite_mentions_def Object_keys_def Map_get_def or_else_def
        startsWith_def example_message_def)
  show ?thesis
    unfolding summarizeText_def users getUserMap_example
    by (simp add: step create question_entry_def or_else_def)
qed

text \<open>
  Claim C1 asks for every mention token to be replaced by the resolved name. In the
  example channel the author \<open>U1\<close> resolves to \<open>alice\<close> and the message \<open>hi <@U1>\<close> mentions
  \<open>U1\<close>, yet the entry sent to the model still holds the token, where the replacement the loop
  body spells out would give \<open>hi alice\<close>.
\<close>

theorem mention_token_left_in_entry:
  "snd (snd (summarizeText example_world [] [example_message] None)) =
     [users_info ''U1'',
      chat_completions_create [systemPrompt None, UserMessage ''alice: hi <@U1>'' ''alice'']] \<and>
   Map_get \<lparr>entries = [(''U1'', ''alice'')], own_keys = []\<rparr> ''U1'' = Some ''alice'' \<and>
   replace ''hi <@U1>'' ''<@U1>'' ''alice'' = ''hi alice''"
  by (simp add: summarizeText_example Map_get_def replace_def)

section \<open>The User Resolver\<close>

text \<open>The lookup made for the identifier at position \<open>i\<close> comes after the lookups of the
  identifiers before it. \<^const>\<open>getUserMap\<close> throws exactly when one of the lookups it makes
  throws; the name it keeps for an identifier is the one of the identifier's last
  lookup.\<close>

lemma getUserMap_loop_throws_iff:
  "fst (getUserMap_loop w tr m0 users) = Throws \<longleftrightarrow>
   (\<exists>i<length users. answer_users_info w (tr @ map users_info (take i users)) (users ! i) = Throws)"
proof (induction users arbitrary: tr m0)
  case Nil
  then show ?case by simp
next
  case (Cons user users)
  show ?case
  proof (cases "answer_users_info w tr user")
    case Throws
    then have "answer_users_info w (tr @ map users_info (take 0 (user # users))) ((user # users) ! 0) = Throws"
      by simp
    then have "\<exists>i<length (user # users).
        answer_users_info w (tr @ map users_info (take i (user # users))) ((user # users) ! i) = Throws"
      by blast
    with Throws show ?thesis by simp
  next
    case (Returns name)
    let ?m1 = "Map_set m0 user (or_else name ''Unknown'')"
    have "fst (getUserMap_loop w tr m0 (user # users)) = Throws \<longleftrightarrow>
          fst (getUserMap_loop w (tr @ [users_info user]) ?m1 users) = Throws"
      using Returns by simp
    also have "\<dots> \<longleftrightarrow> (\<exists>i<length users.
        answer_users_info w ((tr @ [users_info user]) @ map users_info (take i users)) (users ! i) = Throws)"
      by (rule Cons.IH)
    also have "\<dots> \<longleftrightarrow> (\<exists>i<length (user # users).
        answer_users_info w (tr @ map users_info (take i (user # users))) ((user # users) ! i) = Throws)"
    proof
      assume "\<exists>i<length users.
        answer_users_info w ((tr @ [users_info user]) @ map users_info (take i users)) (users ! i) = Throws"
      then obtain i where "i < length users"
        and "answer_users_info w ((tr @ [users_info user]) @ map users_info (take i users)) (users ! i) = Throws"
        by blast
      then have "Suc i < length (user # users)"
        and "answer_users_info w (tr @ map users_info (take (Suc i) (user # users))) ((user # users) ! Suc i) = Throws"
        by simp_all
      then show "\<exists>i<length (user # users).
        answer_users_info w (tr @ map users_info (take i (user # users))) ((user # users) ! i) = Throws"
        by blast
    next
      assume "\<exists>i<length (user # users).
        answer_users_info w (tr @ map users_info (take i (user # users))) ((user # users) ! i) = Throws"
      then obtain i where i: "i < length (user # users)"
        and t: "answer_users_info w (tr @ map users_info (take i (user # users))) ((user # users) ! i) = Throws"
        by blast
      from t Returns have "i \<noteq> 0" by (cases i) auto
      then obtain j where j: "i = Suc j" by (cases i) auto
      with i t have "j < length users"
        and "answer_users_info w ((tr @ [users_info user]) @ map users_info (take j users)) (users ! j) = Throws"
        by simp_all
      then show "\<exists>i<length users.
        answer_users_info w ((tr @ [users_info user]) @ map users_info (take i users)) (users ! i) = Throws"
        by blast
    qed
    finally show ?thesis .
  qed
qed

lemma getUserMap_loop_other:
  "getUserMap_loop w tr m0 users = (Returns m, tr') \<Longrightarrow> u \<notin> set users \<Longrightarrow>
   Map_get m u = Map_get m0 u"
proof (induction users arbitrary: tr m0)
  case Nil
  then show ?case by simp
next
  case (Cons user users)
  from Cons.prems(1) obtain name where
    loop: "getUserMap_loop w (tr @ [users_info user]) (Map_set m0 user (or_else name ''Unknown'')) users
       = (Returns m, tr')"
    by (auto split: outcome.splits)
  from Cons.prems(2) have "u \<notin> set users" and "u \<noteq> user" by auto
  with Cons.IH [OF loop] show ?case by (simp add: Map_get_Map_set)
qed

lemma getUserMap_loop_last_lookup:
  "getUserMap_loop w tr m0 users = (Returns m, tr') \<Longrightarrow> i < length users \<Longrightarrow>
   users ! i \<notin> set (drop (Suc i) users) \<Longrightarrow>
   \<exists>name. answer_users_info w (tr @ map users_info (take i users)) (users ! i) = Returns name \<and>
          Map_get m (users ! i) = Some (or_else name ''Unknown'')"
proof (induction users arbitrary: tr m0 i)
  case Nil
  then show ?case by simp
next
  case (Cons user users)
  from Cons.prems(1) obtain name where ans: "answer_users_info w tr user = Returns name"
    and loop: "getUserMap_loop w (tr @ [users_info user]) (Map_set m0 user (or_else name ''Unknown'')) users
       = (Returns m, tr')"
    by (auto split: outcome.splits)
  show ?case
  proof (cases i)
    case 0
    with Cons.prems(3) have "user \<notin> set users" by simp
    from getUserMap_loop_other [OF loop this]
    have "Map_get m user = Some (or_else name ''Unknown'')" by (simp add: Map_get_Map_set)
    with 0 ans show ?thesis by simp
  next
    case (Suc j)
    with Cons.prems(2,3) have "j < length users" and "users ! j \<notin> set (drop (Suc j) users)"
      by simp_all
    from Cons.IH [OF loop this] Suc show ?thesis by simp
  qed
qed

lemma last_index:
  assumes "u \<in> set users"
  shows "\<exists>i<length users. users ! i = u \<and> u \<notin> set (drop (Suc i) users)"
proof -
  from assms obtain ys zs where s: "users = ys @ u # zs" and n: "u \<notin> set zs"
    by (auto dest: split_list_last)
  have "length ys < length users" and "users ! length ys = u" and "drop (Suc (length ys)) users = zs"
    by (simp_all add: s)
  with n show ?thesis by metis
qed

text \<open>
  Claim C9, amended. For every sequence of author identifiers (duplicates allowed):
  \<^const>\<open>getUserMap\<close> throws if and only if one of the lookups it makes throws; if none does,
  it returns a user map, after one lookup per identifier passed in. A returned user map
  has a non-empty name for every identifier passed in: the name the identifier's last
  lookup returned, or \<open>Unknown\<close> when that lookup returned no name or an empty one; so an
  identifier whose lookups all return no name or an empty one is mapped to \<open>Unknown\<close>.
  When \<^const>\<open>getUserMap\<close> throws, \<^const>\<open>summarizeText\<close>, its caller, catches that and returns
  its fallback text.
\<close>

theorem getUserMap_covers_unless_lookup_throws:
  "(fst (getUserMap w tr users) = Throws \<longleftrightarrow>
      (\<exists>i<length users.
         answer_users_info w (tr @ map users_info (take i users)) (users ! i) = Throws)) \<and>
   ((\<forall>i<length users.
       answer_users_info w (tr @ map users_info (take i users)) (users ! i) \<noteq> Throws) \<longrightarrow>
      (\<exists>m. getUserMap w tr users = (Returns m, tr @ map users_info users))) \<and>
   (getUserMap w tr users = (Returns usersMap, tr') \<longrightarrow>
      (\<forall>u\<in>set users. \<exists>n. Map_get usersMap u = Some n \<and> n \<noteq> []) \<and>
      (\<forall>i<length users. users ! i \<notin> set (drop (Suc i) users) \<longrightarrow>
         (\<exists>name. answer_users_info w (tr @ map users_info (take i users)) (users ! i) = Returns name \<and>
                Map_get usersMap (users ! i) = Some (or_else name ''Unknown''))) \<and>
      (\<forall>u\<in>set users.
         (\<forall>i<length users. users ! i = u \<longrightarrow>
            answer_users_info w (tr @ map users_info (take i users)) u = Returns None \<or>
            answer_users_info w (tr @ map users_info (take i users)) u = Returns (Some []))
         \<longrightarrow> Map_get usersMap u = Some ''Unknown'')) \<and>
   (fst (getUserMap w tr (map msg_user chats)) = Throws \<longrightarrow>
      fst (summarizeText w tr chats question) = ''Error summarizing text.'')"
proof (intro conjI impI)
  show iff: "fst (getUserMap w tr users) = Throws \<longleftrightarrow>
      (\<exists>i<length users.
         answer_users_info w (tr @ map users_info (take i users)) (users ! i) = Throws)"
    unfolding getUserMap_def by (rule getUserMap_loop_throws_iff)
  {
    assume "\<forall>i<length users.
       answer_users_info w (tr @ map users_info (take i users)) (users ! i) \<noteq> Throws"
    with iff have "fst (getUserMap w tr users) \<noteq> Throws" by blast
    then obtain m tr1 where r: "getUserMap w tr users = (Returns m, tr1)"
      by (cases "getUserMap w tr users"; cases "fst (getUserMap w tr users)") auto
    then have "tr1 = tr @ map users_info users"
      unfolding getUserMap_def by (rule getUserMap_loop_returns_trace)
    with r show "\<exists>m. getUserMap w tr users = (Returns m, tr @ map users_info users)" by blast
  }
  {
    assume ret: "getUserMap w tr users = (Returns usersMap, tr')"
    then have loop: "getUserMap_loop w tr new_Map users = (Returns usersMap, tr')"
      by (simp add: getUserMap_def)
    show "\<forall>u\<in>set users. \<exists>n. Map_get usersMap u = Some n \<and> n \<noteq> []"
      using getUserMap_loop_dom [OF loop] by blast
    show last: "\<forall>i<length users. users ! i \<notin> set (drop (Suc i) users) \<longrightarrow>
         (\<exists>name. answer_users_info w (tr @ map users_info (take i users)) (users ! i) = Returns name \<and>
                Map_get usersMap (users ! i) = Some (or_else name ''Unknown''))"
      using getUserMap_loop_last_lookup [OF loop] by blast
    show "\<forall>u\<in>set users.
         (\<forall>i<length users. users ! i = u \<longrightarrow>
            answer_users_info w (tr @ map users_info (take i users)) u = Returns None \<or>
            answer_users_info w (tr @ map users_info (take i users)) u = Returns (Some []))
         \<longrightarrow> Map_get usersMap u = Some ''Unknown''"
    proof (intro ballI impI)
      fix u
      assume u: "u \<in> set users"
        and unres: "\<forall>i<length users. users ! i = u \<longrightarrow>
            answer_users_info w (tr @ map users_info (take i users)) u = Returns None \<or>
            answer_users_info w (tr @ map users_info (take i users)) u = Returns (Some [])"
      from last_index [OF u] obtain i where i: "i < length users" "users ! i = u"
        "u \<notin> set (drop (Suc i) users)"
        by blast
      with last obtain name where
        a: "answer_users_info w (tr @ map users_info (take i users)) u = Returns name"
        and g: "Map_get usersMap u = Some (or_else name ''Unknown'')"
        by blast
      from unres i a have "name = None \<or> name = Some []" by auto
      then have "or_else name ''Unknown'' = ''Unknown''" by (auto simp: or_else_def)
      with g show "Map_get usersMap u = Some ''Unknown''" by simp
    qed
  }
  {
    assume "fst (getUserMap w tr (map msg_user chats)) = Throws"
    then show "fst (summarizeText w tr chats question) = ''Error summarizing text.''"
      by (cases "getUserMap w tr (map msg_user chats)") (simp add: summarizeText_def)
  }
qed

text \<open>The lookups of the example runs.\<close>

lemma example_world_lookup:
  "answer_users_info example_world h u = (if u = ''U1'' then Returns (Some ''alice'') else Returns None)"
  by (simp add: example_world_def)

lemma failing_lookup_world_lookup: "answer_users_info failing_lookup_world h u = Throws"
  by (simp add: failing_lookup_world_def)

lemma other_lookup_world_lookup:
  "answer_users_info other_lookup_world h u =
     (if u = ''U7'' then Throws else if u = ''U1'' then Returns (Some ''alice'') else Returns None)"
  by (simp add: other_lookup_world_def)

lemma flaky_lookup_world_lookup:
  "answer_users_info flaky_lookup_world h u = (if h = [] then Throws else Returns (Some ''alice''))"
  by (simp add: flaky_lookup_world_def)

text \<open>Claim C9, amended: with a lookup that throws only for an identifier not passed in,
  \<open>U1\<close> is looked up twice and \<open>U9\<close> has no name; with a lookup that throws once, the
  exception reaches \<^const>\<open>summarizeText\<close>.\<close>

theorem getUserMap_covers_unless_lookup_throws_witness:
  "getUserMap other_lookup_world [] [''U1'', ''U9'', ''U1''] =
     (Returns \<lparr>entries = [(''U1'', ''alice''), (''U9'', ''Unknown'')], own_keys = []\<rparr>,
      [users_info ''U1'', users_info ''U9'', users_info ''U1'']) \<and>
   Map_get \<lparr>entries = [(''U1'', ''alice''), (''U9'', ''Unknown'')], own_keys = []\<rparr> ''U9'' = Some ''Unknown'' \<and>
   fst (getUserMap flaky_lookup_world [] [''U1'']) = Throws \<and>
   fst (summarizeText flaky_lookup_world [] [example_message] None) = ''Error summarizing text.''"
proof -
  let ?users = "[''U1'', ''U9'', ''U1'']"
  let ?m = "\<lparr>entries = [(''U1'', ''alice''), (''U9'', ''Unknown'')], own_keys = []\<rparr>"
  have never: "\<forall>i<length ?users.
      answer_users_info other_lookup_world ([] @ map users_info (take i ?users)) (?users ! i) \<noteq> Throws"
    by (simp add: other_lookup_world_lookup nth_Cons split: nat.splits)
  have unres: "\<forall>i<length ?users. ?users ! i = ''U9'' \<longrightarrow>
      answer_users_info other_lookup_world ([] @ map users_info (take i ?users)) ''U9'' = Returns None \<or>
      answer_users_info other_lookup_world ([] @ map users_info (take i ?users)) ''U9'' = Returns (Some [])"
    by (simp add: other_lookup_world_lookup)
  have mem: "''U9'' \<in> set ?users" by simp
  note other = getUserMap_covers_unless_lookup_throws
      [where w = other_lookup_world and tr = "[]" and users = ?users and chats = "[]" and question = None]
  from other never obtain m where
    ret: "getUserMap other_lookup_world [] ?users = (Returns m, [] @ map users_info ?users)"
    by blast
  have run: "getUserMap other_lookup_world [] ?users = (Returns ?m, [] @ map users_info ?users)"
    by (simp add: getUserMap_def other_lookup_world_lookup new_Map_def Map_set_def or_else_def)
  from other [where usersMap = ?m and tr' = "[] @ map users_info ?users"] run unres mem
  have a: "Map_get ?m ''U9'' = Some ''Unknown''"
    by blast
  have thr: "\<exists>i<length [''U1''].
      answer_users_info flaky_lookup_world ([] @ map users_info (take i [''U1''])) ([''U1''] ! i) = Throws"
    by (simp add: flaky_lookup_world_lookup)
  have users: "map msg_user [example_message] = [''U1'']" by (simp add: example_message_def)
  note flaky = getUserMap_covers_unless_lookup_throws
      [where w = flaky_lookup_world and tr = "[]" and users = "[''U1'']" and usersMap = ?m and tr' = "[]"
         and chats = "[example_message]" and question = None]
  from flaky thr have b: "fst (getUserMap flaky_lookup_world [] [''U1'']) = Throws"
    by blast
  with flaky users
  have c: "fst (summarizeText flaky_lookup_world [] [example_message] None) = ''Error summarizing text.''"
    by simp
  from run a b c show ?thesis by simp
qed

text \<open>Claim C9 as stated fails where the lookup throws: \<^const>\<open>getUserMap\<close> returns no user
  map, the exception reaches its caller.\<close>

theorem lookup_failure_propagates:
  "fst (getUserMap failing_lookup_world [] [''U1'']) = Throws"
  by (simp add: getUserMap_def failing_lookup_world_lookup)

section \<open>The mention handler\<close>

text \<open>
  Claim C7. For every mention whose prompt (the text after its first space) trims to
  \<^verbatim>\<open>--help\<close> or to \<^verbatim>\<open>--version\<close>, the handler makes exactly one call, the post of the help
  text or of the version to the event's channel and thread; no message is fetched.
\<close>

theorem help_and_version_reply_without_fetching:
  "(trim (mention_prompt text0) = ''--help'' \<longrightarrow>
      app_mention w tr channel thread_ts text0 = tr @ [chat_postMessage channel helpText thread_ts]) \<and>
   (trim (mention_prompt text0) = ''--version'' \<longrightarrow>
      app_mention w tr channel thread_ts text0 = tr @ [chat_postMessage channel ''v1.0.0'' thread_ts])"
  by (simp add: app_mention_def postMessage_def)

text \<open>Claim C7 on a help request in a channel and a version request in a thread.\<close>

theorem help_and_version_reply_without_fetching_witness:
  "trim (mention_prompt ''<@U07AF4DJWRH>  --help '') = ''--help'' \<and>
   app_mention example_world [] ''C1'' None ''<@U07AF4DJWRH>  --help '' =
     [chat_postMessage ''C1'' helpText None] \<and>
   trim (mention_prompt ''<@U07AF4DJWRH> --version'') = ''--version'' \<and>
   app_mention example_world [] ''C1'' (Some ''17.5'') ''<@U07AF4DJWRH> --version'' =
     [chat_postMessage ''C1'' ''v1.0.0'' (Some ''17.5'')]"
proof -
  have h: "trim (mention_prompt ''<@U07AF4DJWRH>  --help '') = ''--help''" by code_simp
  have v: "trim (mention_prompt ''<@U07AF4DJWRH> --version'') = ''--version''" by code_simp
  from help_and_version_reply_without_fetching [of "''<@U07AF4DJWRH>  --help ''" example_world "[]" "''C1''" None] h
    help_and_version_reply_without_fetching [of "''<@U07AF4DJWRH> --version''" example_world "[]" "''C1''" "Some ''17.5''"] v
  show ?thesis by simp
qed

section \<open>The request pipeline\<close>

lemma fetchRecentMessages_eq:
  "fetchRecentMessages w tr ch l ts =
     (fst (fetchRecentMessages w tr ch l ts),
      tr @ [if truthy ts then conversations_replies ch (or_else ts []) l
            else conversations_history ch l])"
  using fetchRecentMessages_trace [of w tr ch l ts] by (simp add: prod_eq_iff)

text \<open>
  Claim C4. A fetch that throws, or that returns no \<^verbatim>\<open>messages\<close> field or an empty one,
  gives the empty sequence; and whenever \<^const>\<open>fetchRecentMessages\<close> gives the empty
  sequence, \<^const>\<open>handleSummarizeRequest\<close> makes the fetch call and no other call: nothing
  is posted.
\<close>

theorem empty_fetch_posts_nothing:
  "((if truthy ts then answer_replies w tr ch (or_else ts []) l else answer_history w tr ch l)
      \<in> {Throws, Returns None, Returns (Some [])} \<longrightarrow>
      fst (fetchRecentMessages w tr ch l ts) = []) \<and>
   (fst (fetchRecentMessages w tr ch l ts) = [] \<longrightarrow>
      handleSummarizeRequest w tr ch question ts l =
        tr @ [if truthy ts then conversations_replies ch (or_else ts []) l
              else conversations_history ch l] \<and>
      filter is_post (drop (length tr) (handleSummarizeRequest w tr ch question ts l)) = [])"
proof (intro conjI impI)
  assume "(if truthy ts then answer_replies w tr ch (or_else ts []) l else answer_history w tr ch l)
      \<in> {Throws, Returns None, Returns (Some [])}"
  then show "fst (fetchRecentMessages w tr ch l ts) = []"
    by (auto simp: fetchRecentMessages_def split: if_splits)
next
  assume empty: "fst (fetchRecentMessages w tr ch l ts) = []"
  with fetchRecentMessages_eq [of w tr ch l ts]
  show run: "handleSummarizeRequest w tr ch question ts l =
        tr @ [if truthy ts then conversations_replies ch (or_else ts []) l
              else conversations_history ch l]"
    by (simp add: handleSummarizeRequest_def split: prod.splits)
  show "filter is_post (drop (length tr) (handleSummarizeRequest w tr ch question ts l)) = []"
    unfolding run by simp
qed

text \<open>In the example runs the replies of a thread cannot be fetched.\<close>

lemma failing_fetch: "answer_replies example_world h c ts l = Throws"
  by (simp add: example_world_def)

text \<open>Claim C4 on a request in a thread whose fetch throws.\<close>

theorem empty_fetch_posts_nothing_witness:
  "fst (fetchRecentMessages example_world [] ''C1'' (Num 10) (Some ''17.5'')) = [] \<and>
   handleSummarizeRequest example_world [] ''C1'' None (Some ''17.5'') (Num 10) =
     [conversations_replies ''C1'' ''17.5'' (Num 10)]"
proof -
  have t: "truthy (Some ''17.5'')" by (simp add: truthy_def)
  have "(if truthy (Some ''17.5'')
         then answer_replies example_world [] ''C1'' (or_else (Some ''17.5'') []) (Num 10)
         else answer_history example_world [] ''C1'' (Num 10))
      \<in> {Throws, Returns None, Returns (Some [])}"
    by (simp add: t failing_fetch)
  with empty_fetch_posts_nothing [of "Some ''17.5''" example_world "[]" "''C1''" "Num 10" None]
  show ?thesis by (simp add: t or_else_def failing_fetch)
qed

text \<open>
  Claim C3. When the fetch gives messages, the user map is built and the invocation of
  the model throws, \<^const>\<open>summarizeText\<close> returns \<open>Error summarizing text.\<close>, and the calls of
  \<^const>\<open>handleSummarizeRequest\<close> end with the invocation and one post of that text to the
  channel and thread of the request; it is the only post of the run.
\<close>

theorem model_failure_posts_fallback:
  assumes "fetchRecentMessages w tr ch l ts = (messages, tr1)" and "messages \<noteq> []"
    and "getUserMap w tr1 (map msg_user messages) = (Returns usersMap, tr2)"
    and "answer_create w tr2
           (systemPrompt question # snd (transcript_loop usersMap messages) @ question_entry question)
         = Throws"
  shows "fst (summarizeText w tr1 messages question) = ''Error summarizing text.'' \<and>
         handleSummarizeRequest w tr ch question ts l =
           tr2 @ [chat_completions_create
                    (systemPrompt question # snd (transcript_loop usersMap messages)
                       @ question_entry question),
                  chat_postMessage ch ''Error summarizing text.'' ts] \<and>
         filter is_post (drop (length tr) (handleSummarizeRequest w tr ch question ts l)) =
           [chat_postMessage ch ''Error summarizing text.'' ts]"
proof -
  let ?prompt = "systemPrompt question # snd (transcript_loop usersMap messages) @ question_entry question"
  from assms(3,4) have sum: "summarizeText w tr1 messages question =
      (''Error summarizing text.'', fst (transcript_loop usersMap messages),
       tr2 @ [chat_completions_create ?prompt])"
    by (simp add: summarizeText_def Let_def case_prod_beta)
  with assms(1,2) have run: "handleSummarizeRequest w tr ch question ts l =
      tr2 @ [chat_completions_create ?prompt, chat_postMessage ch ''Error summarizing text.'' ts]"
    by (simp add: handleSummarizeRequest_def postMessage_def)
  from assms(1) fetchRecentMessages_trace [of w tr ch l ts]
  have tr1: "tr1 = tr @ [if truthy ts then conversations_replies ch (or_else ts []) l
                         else conversations_history ch l]"
    by simp
  from assms(3) have tr2: "tr2 = tr1 @ map users_info (map msg_user messages)"
    unfolding getUserMap_def by (rule getUserMap_loop_returns_trace)
  have no_post: "filter is_post (map users_info us) = []" for us
    by (induction us) auto
  have "filter is_post (drop (length tr) (handleSummarizeRequest w tr ch question ts l)) =
           [chat_postMessage ch ''Error summarizing text.'' ts]"
    unfolding run tr2 tr1 by (simp add: no_post)
  with sum run show ?thesis by simp
qed

text \<open>The example run whose model throws.\<close>

lemma failing_model: "answer_create failing_model_world h p = Throws"
  by (simp add: failing_model_world_def)

lemma failing_model_world_others:
  "answer_history failing_model_world h c l = Returns (Some [example_message])"
  "answer_users_info failing_model_world h u = (if u = ''U1'' then Returns (Some ''alice'') else Returns None)"
  by (simp_all add: failing_model_world_def example_world_def)

text \<open>Claim C3 on the example channel: all the calls of the run.\<close>

theorem model_failure_posts_fallback_witness:
  "handleSummarizeRequest failing_model_world [] ''C1'' None None (Num 10) =
     [conversations_history ''C1'' (Num 10), users_info ''U1'',
      chat_completions_create [systemPrompt None, UserMessage ''alice: hi <@U1>'' ''alice''],
      chat_postMessage ''C1'' ''Error summarizing text.'' None]"
proof -
  have f: "fetchRecentMessages failing_model_world [] ''C1'' (Num 10) None =
      ([example_message], [conversations_history ''C1'' (Num 10)])"
    by (simp add: fetchRecentMessages_def truthy_def failing_model_world_others)
  have ne: "[example_message] \<noteq> []" by simp
  have g: "getUserMap failing_model_world [conversations_history ''C1'' (Num 10)]
             (map msg_user [example_message]) =
      (Returns \<lparr>entries = [(''U1'', ''alice'')], own_keys = []\<rparr>,
       [conversations_history ''C1'' (Num 10), users_info ''U1''])"
    by (simp add: getUserMap_def failing_model_world_others new_Map_def Map_set_def or_else_def
        example_message_def)
  have step: "transcript_step \<lparr>entries = [(''U1'', ''alice'')], own_keys = []\<rparr> example_message =
     (example_message, Some (UserMessage ''alice: hi <@U1>'' ''alice''))"
    by (simp add: transcript_step_def rewrite_mentions_def Object_keys_def Map_get_def or_else_def
        startsWith_def example_message_def)
  from model_failure_posts_fallback [OF f ne g failing_model]
  show ?thesis by (simp add: step question_entry_def)
qed

section \<open>Command messages\<close>

lemma transcript_step_command:
  "startsWith (msg_text chat) ''!summarize'' \<Longrightarrow> transcript_step usersMap chat = (chat, None)"
  by (simp add: transcript_step_def)

lemma transcript_loop_filter:
  "snd (transcript_loop usersMap chats) =
   snd (transcript_loop usersMap (filter (\<lambda>c. \<not> startsWith (msg_text c) ''!summarize'') chats))"
  by (induction chats) (auto simp: transcript_step_command split: prod.splits option.splits)

text \<open>The calls of \<^const>\<open>summarizeText\<close>: the lookups, then at most one invocation of the
  model.\<close>

lemma summarizeText_calls:
  "\<exists>us. snd (snd (summarizeText w tr chats question)) = tr @ map users_info us \<or>
        (\<exists>m. snd (snd (summarizeText w tr chats question)) =
               tr @ map users_info us @
               [chat_completions_create
                  (systemPrompt question # snd (transcript_loop m chats) @ question_entry question)])"
proof (cases "getUserMap w tr (map msg_user chats)")
  case (Pair r tr1)
  from getUserMap_loop_trace [of w tr new_Map "map msg_user chats"] Pair
  obtain us where tr1: "tr1 = tr @ map users_info us"
    by (auto simp: getUserMap_def)
  show ?thesis
  proof (cases r)
    case Throws
    with Pair tr1 have "snd (snd (summarizeText w tr chats question)) = tr @ map users_info us"
      by (simp add: summarizeText_def)
    then show ?thesis by blast
  next
    case (Returns m)
    with Pair tr1 have "snd (snd (summarizeText w tr chats question)) =
               tr @ map users_info us @
               [chat_completions_create
                  (systemPrompt question # snd (transcript_loop m chats) @ question_entry question)]"
      by (simp add: summarizeText_def Let_def case_prod_beta split: outcome.splits list.splits)
    then show ?thesis by blast
  qed
qed

text \<open>
  Claim C5. A message whose text begins with \<^verbatim>\<open>!summarize\<close> pushes no entry; the entries of
  the loop are those of the same messages with every such message removed; and the
  prompt of an invocation of the model that \<^const>\<open>summarizeText\<close> makes is built from the
  messages with every such message removed.
\<close>

theorem command_messages_leave_no_entry:
  "(startsWith (msg_text chat) ''!summarize'' \<longrightarrow> transcript_step usersMap chat = (chat, None)) \<and>
   snd (transcript_loop usersMap chats) =
     snd (transcript_loop usersMap (filter (\<lambda>c. \<not> startsWith (msg_text c) ''!summarize'') chats)) \<and>
   (\<forall>p. chat_completions_create p \<in> set (drop (length tr) (snd (snd (summarizeText w tr chats question))))
      \<longrightarrow> (\<exists>m. p = systemPrompt question
                   # snd (transcript_loop m (filter (\<lambda>c. \<not> startsWith (msg_text c) ''!summarize'') chats))
                   @ question_entry question))"
proof (intro conjI impI allI)
  assume "startsWith (msg_text chat) ''!summarize''"
  then show "transcript_step usersMap chat = (chat, None)" by (rule transcript_step_command)
next
  show "snd (transcript_loop usersMap chats) =
     snd (transcript_loop usersMap (filter (\<lambda>c. \<not> startsWith (msg_text c) ''!summarize'') chats))"
    by (rule transcript_loop_filter)
next
  fix p
  assume p: "chat_completions_create p \<in> set (drop (length tr) (snd (snd (summarizeText w tr chats question))))"
  from summarizeText_calls [of w tr chats question] obtain us where
    "snd (snd (summarizeText w tr chats question)) = tr @ map users_info us \<or>
        (\<exists>m. snd (snd (summarizeText w tr chats question)) =
               tr @ map users_info us @
               [chat_completions_create
                  (systemPrompt question # snd (transcript_loop m chats) @ question_entry question)])"
    by blast
  then show "\<exists>m. p = systemPrompt question
                   # snd (transcript_loop m (filter (\<lambda>c. \<not> startsWith (msg_text c) ''!summarize'') chats))
                   @ question_entry question"
  proof
    assume "snd (snd (summarizeText w tr chats question)) = tr @ map users_info us"
    with p show ?thesis by auto
  next
    assume "\<exists>m. snd (snd (summarizeText w tr chats question)) =
               tr @ map users_info us @
               [chat_completions_create
                  (systemPrompt question # snd (transcript_loop m chats) @ question_entry question)]"
    then obtain m where "snd (snd (summarizeText w tr chats question)) =
               tr @ map users_info us @
               [chat_completions_create
                  (systemPrompt question # snd (transcript_loop m chats) @ question_entry question)]"
      by blast
    with p have "p = systemPrompt question # snd (transcript_loop m chats) @ question_entry question"
      by auto
    then have "p = systemPrompt question
                   # snd (transcript_loop m (filter (\<lambda>c. \<not> startsWith (msg_text c) ''!summarize'') chats))
                   @ question_entry question"
      using transcript_loop_filter [of m chats] by simp
    then show ?thesis by blast
  qed
qed

text \<open>The command message of the example runs.\<close>

lemma question_message_command: "startsWith (msg_text question_message) ''!summarize''"
  by (simp add: question_message_def startsWith_def)

text \<open>Claim C5 on the command message and on the run of the example channel.\<close>

theorem command_messages_leave_no_entry_witness:
  "startsWith (msg_text question_message) ''!summarize'' \<and>
   transcript_step \<lparr>entries = [(''U1'', ''alice'')], own_keys = []\<rparr> question_message =
     (question_message, None) \<and>
   chat_completions_create [systemPrompt None, UserMessage ''alice: hi <@U1>'' ''alice'']
     \<in> set (drop (length ([] :: call list))
          (snd (snd (summarizeText example_world [] [example_message] None)))) \<and>
   (\<exists>m. [systemPrompt None, UserMessage ''alice: hi <@U1>'' ''alice''] =
      systemPrompt None
      # snd (transcript_loop m (filter (\<lambda>c. \<not> startsWith (msg_text c) ''!summarize'') [example_message]))
      @ question_entry None)"
proof -
  note c = question_message_command
  have run: "chat_completions_create [systemPrompt None, UserMessage ''alice: hi <@U1>'' ''alice'']
     \<in> set (drop (length ([] :: call list))
          (snd (snd (summarizeText example_world [] [example_message] None))))"
    by (simp add: summarizeText_example)
  from command_messages_leave_no_entry
         [where chat = question_message
            and usersMap = "\<lparr>entries = [(''U1'', ''alice'')], own_keys = []\<rparr>"
            and chats = "[example_message]" and tr = "[]" and w = example_world
            and question = None] c run
  show ?thesis by blast
qed

section \<open>The calls of a request\<close>

text \<open>A request makes its fetch call, then lookups, then at most one invocation of the
  model, then at most one post.\<close>

lemma handleSummarizeRequest_calls:
  "\<exists>us rest. handleSummarizeRequest w tr ch question ts l =
       tr @ fetch_call ch l ts # map users_info us @ rest \<and>
     (rest = [] \<or> (\<exists>s. rest = [chat_postMessage ch s ts]) \<or>
      (\<exists>m ms s. rest =
         [chat_completions_create
            (systemPrompt question # snd (transcript_loop m ms) @ question_entry question),
          chat_postMessage ch s ts]))"
proof (cases "fst (fetchRecentMessages w tr ch l ts) = []")
  case True
  with fetchRecentMessages_eq [of w tr ch l ts]
  have "handleSummarizeRequest w tr ch question ts l = tr @ fetch_call ch l ts # map users_info [] @ []"
    by (simp add: handleSummarizeRequest_def fetch_call_def split: prod.splits)
  then show ?thesis by blast
next
  case False
  define ms where "ms = fst (fetchRecentMessages w tr ch l ts)"
  define tr1 where "tr1 = tr @ [fetch_call ch l ts]"
  from fetchRecentMessages_eq [of w tr ch l ts]
  have f: "fetchRecentMessages w tr ch l ts = (ms, tr1)"
    by (simp add: ms_def tr1_def fetch_call_def)
  define s where "s = fst (summarizeText w tr1 ms question)"
  from False have "ms \<noteq> []" by (simp add: ms_def)
  then have run: "handleSummarizeRequest w tr ch question ts l =
      snd (snd (summarizeText w tr1 ms question)) @ [chat_postMessage ch s ts]"
    by (simp add: handleSummarizeRequest_def f postMessage_def s_def case_prod_beta)
  from summarizeText_calls [of w tr1 ms question] obtain us where
    "snd (snd (summarizeText w tr1 ms question)) = tr1 @ map users_info us \<or>
        (\<exists>m. snd (snd (summarizeText w tr1 ms question)) =
               tr1 @ map users_info us @
               [chat_completions_create
                  (systemPrompt question # snd (transcript_loop m ms) @ question_entry question)])"
    by blast
  then show ?thesis
  proof
    assume "snd (snd (summarizeText w tr1 ms question)) = tr1 @ map users_info us"
    with run have "handleSummarizeRequest w tr ch question ts l =
       tr @ fetch_call ch l ts # map users_info us @ [chat_postMessage ch s ts]"
      by (simp add: tr1_def)
    then show ?thesis by blast
  next
    assume "\<exists>m. snd (snd (summarizeText w tr1 ms question)) =
               tr1 @ map users_info us @
               [chat_completions_create
                  (systemPrompt question # snd (transcript_loop m ms) @ question_entry question)]"
    then obtain m where "snd (snd (summarizeText w tr1 ms question)) =
               tr1 @ map users_info us @
               [chat_completions_create
                  (systemPrompt question # snd (transcript_loop m ms) @ question_entry question)]"
      by blast
    with run have "handleSummarizeRequest w tr ch question ts l =
       tr @ fetch_call ch l ts # map users_info us @
         [chat_completions_create
            (systemPrompt question # snd (transcript_loop m ms) @ question_entry question),
          chat_postMessage ch s ts]"
      by (simp add: tr1_def)
    then show ?thesis by blast
  qed
qed

lemma fetch_limit_users_info: "c \<in> set (map users_info us) \<Longrightarrow> fetch_limit c = None"
  by auto

lemma handleSummarizeRequest_fetches_once:
  "\<exists>rest. handleSummarizeRequest w tr ch question ts l = tr @ fetch_call ch l ts # rest \<and>
     (\<forall>c\<in>set rest. fetch_limit c = None) \<and>
     (\<forall>p. chat_completions_create p \<in> set rest \<longrightarrow>
        (\<exists>entries. p = systemPrompt question # entries @ question_entry question))"
proof -
  from handleSummarizeRequest_calls [of w tr ch question ts l] obtain us rest where
    run: "handleSummarizeRequest w tr ch question ts l = tr @ fetch_call ch l ts # map users_info us @ rest"
    and rest: "rest = [] \<or> (\<exists>s. rest = [chat_postMessage ch s ts]) \<or>
      (\<exists>m ms s. rest =
         [chat_completions_create
            (systemPrompt question # snd (transcript_loop m ms) @ question_entry question),
          chat_postMessage ch s ts])"
    by blast
  from rest have a: "\<forall>c\<in>set (map users_info us @ rest). fetch_limit c = None"
    by auto
  from rest have b: "\<forall>p. chat_completions_create p \<in> set (map users_info us @ rest) \<longrightarrow>
        (\<exists>entries. p = systemPrompt question # entries @ question_entry question)"
    by auto
  from run a b show ?thesis by blast
qed

section \<open>The pattern trigger\<close>

text \<open>The match of the scenario's text, and the limit read from its group 2.\<close>

lemma question_match:
  "message_matches (''!summarize '' @ quoted_question @ '' 5'') = Some (Some quoted_question, ''5'')"
  by code_simp

lemma parseInt_5: "or_10 (parseInt ''5'') = Num 5"
  by code_simp

text \<open>
  Claim C8, amended. On a message whose text is \<^verbatim>\<open>!summarize "what was decided?" 5\<close>,
  group 1 of the match is the question with its surrounding quote characters and
  group 2 is \<open>5\<close>, read as the limit 5; the listener's first call is the fetch with
  limit 5, no later call is a fetch, and every prompt sent to the model ends with the
  entry made of the question marker and that quoted question.
\<close>

theorem quoted_question_scenario:
  assumes "msg_text message = ''!summarize '' @ quoted_question @ '' 5''"
  shows "message_matches (msg_text message) = Some (Some quoted_question, ''5'') \<and>
         or_10 (parseInt ''5'') = Num 5 \<and>
         (\<exists>rest. app_message w tr message =
              tr @ fetch_call (msg_channel message) (Num 5) (msg_thread_ts message) # rest \<and>
            (\<forall>c\<in>set rest. fetch_limit c = None) \<and>
            (\<forall>p. chat_completions_create p \<in> set rest \<longrightarrow>
               last p = UserMessage (''@#*&Question: '' @ quoted_question) ''definetly not a bot''))"
proof -
  from assms have m: "message_matches (msg_text message) = Some (Some quoted_question, ''5'')"
    by (simp only: question_match)
  then have run: "app_message w tr message =
      handleSummarizeRequest w tr (msg_channel message) (Some quoted_question) (msg_thread_ts message) (Num 5)"
    by (simp add: app_message_def parseInt_5)
  have q: "question_entry (Some quoted_question) =
      [UserMessage (''@#*&Question: '' @ quoted_question) ''definetly not a bot'']"
    by (simp add: question_entry_def quoted_question_def)
  from handleSummarizeRequest_fetches_once
         [of w tr "msg_channel message" "Some quoted_question" "msg_thread_ts message" "Num 5"]
  obtain rest where
    r1: "app_message w tr message =
           tr @ fetch_call (msg_channel message) (Num 5) (msg_thread_ts message) # rest"
    and r2: "\<forall>c\<in>set rest. fetch_limit c = None"
    and r3: "\<forall>p. chat_completions_create p \<in> set rest \<longrightarrow>
        (\<exists>entries. p = systemPrompt (Some quoted_question) # entries @ question_entry (Some quoted_question))"
    unfolding run by blast
  from r3 have "\<forall>p. chat_completions_create p \<in> set rest \<longrightarrow>
               last p = UserMessage (''@#*&Question: '' @ quoted_question) ''definetly not a bot''"
    unfolding q by auto
  with m r1 r2 show ?thesis by (auto simp: parseInt_5)
qed

text \<open>The run of the listener on the command message in the example channel.\<close>

lemma question_run:
  "app_message example_world [] question_message =
     [conversations_history ''C1'' (Num 5), users_info ''U1'',
      chat_completions_create
        [systemPrompt (Some quoted_question), UserMessage ''alice: hi <@U1>'' ''alice'',
         UserMessage (''@#*&Question: '' @ quoted_question) ''definetly not a bot''],
      chat_postMessage ''C1'' ''ok'' None]"
proof -
  have m: "message_matches (msg_text question_message) = Some (Some quoted_question, ''5'')"
    by (simp only: question_message_def SlackMessage.simps question_match)
  have w: "answer_history example_world h c l = Returns (Some [example_message])"
    "answer_create example_world h p = Returns [Some ''ok'']" for h c l p
    by (simp_all add: example_world_def)
  have f: "fetchRecentMessages example_world [] ''C1'' (Num 5) None =
      ([example_message], [conversations_history ''C1'' (Num 5)])"
    by (simp add: fetchRecentMessages_def truthy_def w)
  have g: "getUserMap example_world [conversations_history ''C1'' (Num 5)]
             (map msg_user [example_message]) =
      (Returns \<lparr>entries = [(''U1'', ''alice'')], own_keys = []\<rparr>,
       [conversations_history ''C1'' (Num 5), users_info ''U1''])"
    by (simp add: getUserMap_def example_world_lookup new_Map_def Map_set_def or_else_def
        example_message_def)
  have step: "transcript_step \<lparr>entries = [(''U1'', ''alice'')], own_keys = []\<rparr> example_message =
     (example_message, Some (UserMessage ''alice: hi <@U1>'' ''alice''))"
    by (simp add: transcript_step_def rewrite_mentions_def Object_keys_def Map_get_def or_else_def
        startsWith_def example_message_def)
  have q: "question_entry (Some quoted_question) =
      [UserMessage (''@#*&Question: '' @ quoted_question) ''definetly not a bot'']"
    by (simp add: question_entry_def quoted_question_def)
  have s: "summarizeText example_world [conversations_history ''C1'' (Num 5)] [example_message]
             (Some quoted_question) =
     (''ok'', [example_message],
      [conversations_history ''C1'' (Num 5), users_info ''U1'',
       chat_completions_create
        [systemPrompt (Some quoted_question), UserMessage ''alice: hi <@U1>'' ''alice'',
         UserMessage (''@#*&Question: '' @ quoted_question) ''definetly not a bot'']])"
    unfolding summarizeText_def g by (simp add: step w q or_else_def)
  have c: "msg_channel question_message = ''C1''" "msg_thread_ts question_message = None"
    by (simp_all add: question_message_def)
  show ?thesis
    by (simp add: app_message_def m parseInt_5 c handleSummarizeRequest_def f s postMessage_def)
qed

text \<open>Claim C8, amended, on that run.\<close>

theorem quoted_question_scenario_witness:
  "msg_text question_message = ''!summarize '' @ quoted_question @ '' 5'' \<and>
   message_matches (msg_text question_message) = Some (Some quoted_question, ''5'') \<and>
   app_message example_world [] question_message =
     [conversations_history ''C1'' (Num 5), users_info ''U1'',
      chat_completions_create
        [systemPrompt (Some quoted_question), UserMessage ''alice: hi <@U1>'' ''alice'',
         UserMessage (''@#*&Question: '' @ quoted_question) ''definetly not a bot''],
      chat_postMessage ''C1'' ''ok'' None] \<and>
   last [systemPrompt (Some quoted_question), UserMessage ''alice: hi <@U1>'' ''alice'',
         UserMessage (''@#*&Question: '' @ quoted_question) ''definetly not a bot''] =
     UserMessage (''@#*&Question: '' @ quoted_question) ''definetly not a bot''"
proof -
  have h: "msg_text question_message = ''!summarize '' @ quoted_question @ '' 5''"
    by (simp add: question_message_def)
  from quoted_question_scenario [OF h, of example_world "[]"] obtain rest where
    m: "message_matches (msg_text question_message) = Some (Some quoted_question, ''5'')"
    and r: "app_message example_world [] question_message =
              [] @ fetch_call (msg_channel question_message) (Num 5) (msg_thread_ts question_message) # rest"
    and l: "\<forall>p. chat_completions_create p \<in> set rest \<longrightarrow>
               last p = UserMessage (''@#*&Question: '' @ quoted_question) ''definetly not a bot''"
    by blast
  from r have "chat_completions_create
        [systemPrompt (Some quoted_question), UserMessage ''alice: hi <@U1>'' ''alice'',
         UserMessage (''@#*&Question: '' @ quoted_question) ''definetly not a bot''] \<in> set rest"
    unfolding question_run by auto
  with l have "last [systemPrompt (Some quoted_question), UserMessage ''alice: hi <@U1>'' ''alice'',
         UserMessage (''@#*&Question: '' @ quoted_question) ''definetly not a bot''] =
     UserMessage (''@#*&Question: '' @ quoted_question) ''definetly not a bot''"
    by blast
  with h m question_run show ?thesis by blast
qed

text \<open>Claim C8 as stated fails: the question the listener takes from the match is not the
  text without quote characters.\<close>

theorem pattern_question_keeps_quotes:
  "message_matches (''!summarize '' @ quoted_question @ '' 5'') = Some (Some quoted_question, ''5'') \<and>
   quoted_question \<noteq> ''what was decided?''"
proof
  show "message_matches (''!summarize '' @ quoted_question @ '' 5'') = Some (Some quoted_question, ''5'')"
    by (rule question_match)
  show "quoted_question \<noteq> ''what was decided?''"
    by (simp add: quoted_question_def)
qed

section \<open>The limit\<close>

text \<open>The default of the limit.\<close>

lemma or_10_nonzero: "or_10 n \<noteq> NaN \<and> or_10 n \<noteq> Num 0"
  by (simp add: or_10_def)

lemma or_10_NaN: "n = NaN \<Longrightarrow> or_10 n = Num 10"
  by (simp add: or_10_def)

lemma or_10_positive: "\<not> negative_number n \<Longrightarrow> positive_number (or_10 n)"
  by (cases n) (auto simp: or_10_def negative_number_def positive_number_def)

text \<open>A prompt that includes \<^verbatim>\<open>--limit\<close> splits into at least two parts, so the mention
  handler never meets a missing \<^verbatim>\<open>parts[1]\<close>.\<close>

lemma split_nonempty: "sep \<noteq> [] \<Longrightarrow> split s sep \<noteq> []"
  by (subst split.simps) (simp split: option.splits)

lemma split_includes:
  assumes "includes_str s sep" and "sep \<noteq> []"
  shows "\<exists>p0 p1 ps. split s sep = p0 # p1 # ps"
proof -
  from assms(1) obtain b a where f: "find_first sep s = Some (b, a)"
    by (auto simp: includes_str_def)
  from assms(2) obtain p1 ps where "split a sep = p1 # ps"
    using split_nonempty [of sep a] by (cases "split a sep") auto
  with f assms(2) have "split s sep = b # p1 # ps"
    by (subst split.simps) simp
  then show ?thesis by blast
qed

lemma mention_request_limit:
  "\<not> includes_str prompt ''--limit'' \<Longrightarrow>
     mention_request prompt = Returns (if trim prompt \<noteq> ''summarize'' then Some prompt else None, Num 10)"
  "includes_str prompt ''--limit'' \<Longrightarrow> split prompt ''--limit'' = p0 # p1 # ps \<Longrightarrow>
     mention_request prompt =
       Returns (if trim p0 \<noteq> ''summarize'' then Some p0 else None, or_10 (parseInt (trim p1)))"
  by (simp_all add: mention_request_def)

text \<open>\<^const>\<open>parseInt\<close> on a run of decimal digits, as group 2 of the pattern is.\<close>

lemma digits_value_nonneg: "0 \<le> digits_value radix z"
proof -
  have "0 \<le> acc \<Longrightarrow>
      0 \<le> foldl (\<lambda>acc c. acc * int radix + int (the (digit_value radix c))) acc z" for acc
    by (induction z arbitrary: acc) auto
  then show ?thesis by (simp add: digits_value_def)
qed

lemma round_double_nonneg: "0 \<le> n \<Longrightarrow> 0 \<le> round_double n"
  by (auto simp: round_double_def Let_def pos_imp_zdiv_nonneg_iff)

lemma Number_of_nonneg: "0 \<le> n \<Longrightarrow> \<not> negative_number (Number_of 1 n)"
  using round_double_nonneg [of n] by (simp add: Number_of_def negative_number_def Let_def)

lemma isDigit_facts:
  assumes "isDigit c"
  shows "\<not> isWhiteSpace c" and "c \<noteq> CHR ''-''" and "c \<noteq> CHR ''+''" and "c \<noteq> CHR ''x''"
    and "c \<noteq> CHR ''X''" and "digit_value 10 c \<noteq> None"
  using assms by (auto simp: isDigit_def isWhiteSpace_def digit_value_def Let_def)

lemma parseInt_digits:
  assumes "\<forall>c\<in>set g. isDigit c"
  shows "parseInt g = (if g = [] then NaN else Number_of 1 (digits_value 10 g))"
proof (cases g)
  case Nil
  then show ?thesis by (simp add: parseInt_def)
next
  case (Cons c cs)
  with assms have c: "isDigit c" by simp
  have nohex: "\<not> prefix ''0x'' g" "\<not> prefix ''0X'' g"
    using assms Cons isDigit_facts(4,5) by (cases cs; auto)+
  have all: "takeWhile (\<lambda>c. digit_value 10 c \<noteq> None) g = g"
    using assms isDigit_facts(6) by (simp add: takeWhile_eq_all_conv)
  have ws: "dropWhile isWhiteSpace g = g"
    using Cons isDigit_facts(1) [OF c] by simp
  have sign: "g \<noteq> []" "hd g \<noteq> CHR ''-''" "hd g \<noteq> CHR ''+''"
    using Cons isDigit_facts(2,3) [OF c] by simp_all
  show ?thesis
    unfolding parseInt_def Let_def ws by (simp only: sign nohex all simp_thms if_False if_True)
qed

lemma message_matches_digits:
  "message_matches t = Some (g1, g2) \<Longrightarrow> \<forall>c\<in>set g2. isDigit c"
  by (auto simp: message_matches_def Let_def split: option.splits prod.splits dest: set_takeWhileD)

lemma pattern_limit_positive:
  assumes "message_matches t = Some (g1, g2)"
  shows "positive_number (or_10 (parseInt g2))" and "g2 = [] \<Longrightarrow> parseInt g2 = NaN"
proof -
  from assms have d: "\<forall>c\<in>set g2. isDigit c" by (rule message_matches_digits)
  have "\<not> negative_number (parseInt g2)"
    unfolding parseInt_digits [OF d]
    using Number_of_nonneg [OF digits_value_nonneg] by (simp add: negative_number_def)
  then show "positive_number (or_10 (parseInt g2))" by (rule or_10_positive)
  show "g2 = [] \<Longrightarrow> parseInt g2 = NaN" by (simp add: parseInt_def)
qed


text \<open>
  Claim C2, amended. The mention handler always computes a limit; it is never \<^verbatim>\<open>NaN\<close>
  and never zero; it is 10 when the prompt has no \<^verbatim>\<open>--limit\<close>, and when the text after
  \<^verbatim>\<open>--limit\<close> fails integer parsing; it is positive unless that text parses to a negative
  number. The limit of the pattern listener is positive, and it is 10 when group 2 is
  empty or fails integer parsing. In both handlers the limit is the one of the first
  call of the request, the fetch, and no later call is a fetch.
\<close>

theorem limit_nonzero_default_10:
  "(\<exists>question limit. mention_request prompt = Returns (question, limit) \<and>
       limit \<noteq> NaN \<and> limit \<noteq> Num 0 \<and>
       (\<not> includes_str prompt ''--limit'' \<longrightarrow> limit = Num 10) \<and>
       (includes_str prompt ''--limit'' \<longrightarrow>
          (\<exists>p0 p1 ps. split prompt ''--limit'' = p0 # p1 # ps \<and>
             limit = or_10 (parseInt (trim p1)) \<and>
             (parseInt (trim p1) = NaN \<longrightarrow> limit = Num 10) \<and>
             (\<not> negative_number (parseInt (trim p1)) \<longrightarrow> positive_number limit))) \<and>
       (prompt = mention_prompt text0 \<and> trim prompt \<noteq> ''--help'' \<and> trim prompt \<noteq> ''--version'' \<longrightarrow>
          (\<exists>rest. app_mention w tr channel thread_ts text0 =
                    tr @ fetch_call channel limit thread_ts # rest \<and>
                  (\<forall>c\<in>set rest. fetch_limit c = None)))) \<and>
   (message_matches (msg_text message) = Some (g1, g2) \<longrightarrow>
       positive_number (or_10 (parseInt g2)) \<and>
       (parseInt g2 = NaN \<longrightarrow> or_10 (parseInt g2) = Num 10) \<and>
       (g2 = [] \<longrightarrow> parseInt g2 = NaN) \<and>
       (\<exists>rest. app_message w tr message =
                 tr @ fetch_call (msg_channel message) (or_10 (parseInt g2)) (msg_thread_ts message) # rest \<and>
               (\<forall>c\<in>set rest. fetch_limit c = None)))"
proof (rule conjI)
  have run: "\<exists>rest. app_mention w tr channel thread_ts text0 =
                    tr @ fetch_call channel limit thread_ts # rest \<and>
                  (\<forall>c\<in>set rest. fetch_limit c = None)"
    if "mention_request prompt = Returns (question, limit)" and "prompt = mention_prompt text0"
      and "trim prompt \<noteq> ''--help''" and "trim prompt \<noteq> ''--version''" for question limit
  proof -
    from that have "app_mention w tr channel thread_ts text0 =
        handleSummarizeRequest w tr channel question thread_ts limit"
      by (simp add: app_mention_def)
    with handleSummarizeRequest_fetches_once [of w tr channel question thread_ts limit]
    show ?thesis by auto
  qed
  show "\<exists>question limit. mention_request prompt = Returns (question, limit) \<and>
       limit \<noteq> NaN \<and> limit \<noteq> Num 0 \<and>
       (\<not> includes_str prompt ''--limit'' \<longrightarrow> limit = Num 10) \<and>
       (includes_str prompt ''--limit'' \<longrightarrow>
          (\<exists>p0 p1 ps. split prompt ''--limit'' = p0 # p1 # ps \<and>
             limit = or_10 (parseInt (trim p1)) \<and>
             (parseInt (trim p1) = NaN \<longrightarrow> limit = Num 10) \<and>
             (\<not> negative_number (parseInt (trim p1)) \<longrightarrow> positive_number limit))) \<and>
       (prompt = mention_prompt text0 \<and> trim prompt \<noteq> ''--help'' \<and> trim prompt \<noteq> ''--version'' \<longrightarrow>
          (\<exists>rest. app_mention w tr channel thread_ts text0 =
                    tr @ fetch_call channel limit thread_ts # rest \<and>
                  (\<forall>c\<in>set rest. fetch_limit c = None)))"
  proof (cases "includes_str prompt ''--limit''")
    case False
    from mention_request_limit(1) [OF False] run False show ?thesis
      by auto
  next
    case True
    then obtain p0 p1 ps where sp: "split prompt ''--limit'' = p0 # p1 # ps"
      using split_includes [of prompt "''--limit''"] by auto
    note req = mention_request_limit(2) [OF True sp]
    from req run have r: "prompt = mention_prompt text0 \<and> trim prompt \<noteq> ''--help'' \<and> trim prompt \<noteq> ''--version'' \<longrightarrow>
          (\<exists>rest. app_mention w tr channel thread_ts text0 =
                    tr @ fetch_call channel (or_10 (parseInt (trim p1))) thread_ts # rest \<and>
                  (\<forall>c\<in>set rest. fetch_limit c = None))"
      by blast
    from req True sp r or_10_nonzero [of "parseInt (trim p1)"] or_10_NaN [of "parseInt (trim p1)"]
      or_10_positive [of "parseInt (trim p1)"]
    show ?thesis by auto
  qed
next
  show "message_matches (msg_text message) = Some (g1, g2) \<longrightarrow>
       positive_number (or_10 (parseInt g2)) \<and>
       (parseInt g2 = NaN \<longrightarrow> or_10 (parseInt g2) = Num 10) \<and>
       (g2 = [] \<longrightarrow> parseInt g2 = NaN) \<and>
       (\<exists>rest. app_message w tr message =
                 tr @ fetch_call (msg_channel message) (or_10 (parseInt g2)) (msg_thread_ts message) # rest \<and>
               (\<forall>c\<in>set rest. fetch_limit c = None))"
  proof
    assume m: "message_matches (msg_text message) = Some (g1, g2)"
    then have "app_message w tr message =
        handleSummarizeRequest w tr (msg_channel message) g1 (msg_thread_ts message) (or_10 (parseInt g2))"
      by (simp add: app_message_def)
    with handleSummarizeRequest_fetches_once
           [of w tr "msg_channel message" g1 "msg_thread_ts message" "or_10 (parseInt g2)"]
    have "\<exists>rest. app_message w tr message =
                 tr @ fetch_call (msg_channel message) (or_10 (parseInt g2)) (msg_thread_ts message) # rest \<and>
               (\<forall>c\<in>set rest. fetch_limit c = None)"
      by auto
    with pattern_limit_positive [OF m] or_10_NaN [of "parseInt g2"]
    show "positive_number (or_10 (parseInt g2)) \<and>
       (parseInt g2 = NaN \<longrightarrow> or_10 (parseInt g2) = Num 10) \<and>
       (g2 = [] \<longrightarrow> parseInt g2 = NaN) \<and>
       (\<exists>rest. app_message w tr message =
                 tr @ fetch_call (msg_channel message) (or_10 (parseInt g2)) (msg_thread_ts message) # rest \<and>
               (\<forall>c\<in>set rest. fetch_limit c = None))"
      by blast
  qed
qed


text \<open>The run of a request without question in the example channel, for any limit.\<close>

lemma example_request_run:
  "handleSummarizeRequest example_world [] ''C1'' None None l =
     [conversations_history ''C1'' l, users_info ''U1'',
      chat_completions_create [systemPrompt None, UserMessage ''alice: hi <@U1>'' ''alice''],
      chat_postMessage ''C1'' ''ok'' None]"
proof -
  have w: "answer_history example_world h c l' = Returns (Some [example_message])"
    "answer_create example_world h p = Returns [Some ''ok'']" for h c l' p
    by (simp_all add: example_world_def)
  have f: "fetchRecentMessages example_world [] ''C1'' l None =
      ([example_message], [conversations_history ''C1'' l])"
    by (simp add: fetchRecentMessages_def truthy_def w)
  have g: "getUserMap example_world [conversations_history ''C1'' l]
             (map msg_user [example_message]) =
      (Returns \<lparr>entries = [(''U1'', ''alice'')], own_keys = []\<rparr>,
       [conversations_history ''C1'' l, users_info ''U1''])"
    by (simp add: getUserMap_def example_world_lookup new_Map_def Map_set_def or_else_def
        example_message_def)
  have step: "transcript_step \<lparr>entries = [(''U1'', ''alice'')], own_keys = []\<rparr> example_message =
     (example_message, Some (UserMessage ''alice: hi <@U1>'' ''alice''))"
    by (simp add: transcript_step_def rewrite_mentions_def Object_keys_def Map_get_def or_else_def
        startsWith_def example_message_def)
  have s: "summarizeText example_world [conversations_history ''C1'' l] [example_message] None =
     (''ok'', [example_message],
      [conversations_history ''C1'' l, users_info ''U1'',
       chat_completions_create [systemPrompt None, UserMessage ''alice: hi <@U1>'' ''alice'']])"
    unfolding summarizeText_def g by (simp add: step w question_entry_def or_else_def)
  show ?thesis
    by (simp add: handleSummarizeRequest_def f s postMessage_def)
qed

text \<open>A mention that asks for a negative limit.\<close>

lemma negative_limit_request:
  "mention_request (mention_prompt ''<@U07AF4DJWRH> summarize --limit -5'') = Returns (None, Num (- 5))"
  "trim (mention_prompt ''<@U07AF4DJWRH> summarize --limit -5'') \<noteq> ''--help''"
  "trim (mention_prompt ''<@U07AF4DJWRH> summarize --limit -5'') \<noteq> ''--version''"
  by code_simp+

text \<open>Claim C2 as stated fails on that mention: the limit is \<open>- 5\<close>, and the history is
  fetched with it.\<close>

theorem negative_limit_reaches_fetcher:
  "mention_request (mention_prompt ''<@U07AF4DJWRH> summarize --limit -5'') = Returns (None, Num (- 5)) \<and>
   app_mention example_world [] ''C1'' None ''<@U07AF4DJWRH> summarize --limit -5'' =
     [conversations_history ''C1'' (Num (- 5)), users_info ''U1'',
      chat_completions_create [systemPrompt None, UserMessage ''alice: hi <@U1>'' ''alice''],
      chat_postMessage ''C1'' ''ok'' None] \<and>
   \<not> positive_integer (Num (- 5))"
  by (simp add: app_mention_def negative_limit_request example_request_run positive_integer_def)

text \<open>Mentions with a limit, without one, and with one that is no number; and the bare
  command of the pattern trigger.\<close>

lemma limit_20_request:
  "mention_request (mention_prompt ''<@U07AF4DJWRH> summarize --limit 20'') = Returns (None, Num 20)"
  "trim (mention_prompt ''<@U07AF4DJWRH> summarize --limit 20'') \<noteq> ''--help''"
  "trim (mention_prompt ''<@U07AF4DJWRH> summarize --limit 20'') \<noteq> ''--version''"
  "includes_str (mention_prompt ''<@U07AF4DJWRH> summarize --limit 20'') ''--limit''"
  by code_simp+

lemma no_limit_request:
  "\<not> includes_str (mention_prompt ''<@U07AF4DJWRH> summarize'') ''--limit''"
  by code_simp

lemma bad_limit_request:
  "includes_str (mention_prompt ''<@U07AF4DJWRH> summarize --limit abc'') ''--limit''"
  "split (mention_prompt ''<@U07AF4DJWRH> summarize --limit abc'') ''--limit'' = [''summarize '', '' abc'']"
  "parseInt (trim '' abc'') = NaN"
  by code_simp+

lemma bare_command_match: "message_matches ''!summarize'' = Some (None, [])"
  by code_simp

text \<open>Claim C2, amended, on those triggers and on the command message.\<close>

theorem limit_nonzero_default_10_witness:
  "(\<exists>rest. app_mention example_world [] ''C1'' None ''<@U07AF4DJWRH> summarize --limit 20'' =
             fetch_call ''C1'' (Num 20) None # rest \<and> (\<forall>c\<in>set rest. fetch_limit c = None)) \<and>
   positive_number (Num 20) \<and>
   (\<exists>question. mention_request (mention_prompt ''<@U07AF4DJWRH> summarize'') = Returns (question, Num 10)) \<and>
   (\<exists>question. mention_request (mention_prompt ''<@U07AF4DJWRH> summarize --limit abc'')
                 = Returns (question, Num 10)) \<and>
   positive_number (or_10 (parseInt ''5'')) \<and>
   or_10 (parseInt []) = Num 10"
proof -
  let ?a = "mention_prompt ''<@U07AF4DJWRH> summarize --limit 20''"
  from limit_nonzero_default_10
         [where prompt = ?a and ?text0.0 = "''<@U07AF4DJWRH> summarize --limit 20''"
            and w = example_world and tr = "[]" and channel = "''C1''" and thread_ts = None]
    limit_20_request
  have a: "(\<exists>rest. app_mention example_world [] ''C1'' None ''<@U07AF4DJWRH> summarize --limit 20'' =
             fetch_call ''C1'' (Num 20) None # rest \<and> (\<forall>c\<in>set rest. fetch_limit c = None)) \<and>
           positive_number (Num 20)"
    by (auto simp: positive_number_def)
  let ?b = "mention_prompt ''<@U07AF4DJWRH> summarize''"
  from limit_nonzero_default_10 [where prompt = ?b] no_limit_request
  have b: "\<exists>question. mention_request ?b = Returns (question, Num 10)"
    by blast
  let ?c = "mention_prompt ''<@U07AF4DJWRH> summarize --limit abc''"
  from limit_nonzero_default_10
         [where prompt = ?c and ?text0.0 = "''<@U07AF4DJWRH> summarize --limit abc''"
            and w = example_world and tr = "[]" and channel = "''C1''" and thread_ts = None
            and message = question_message and ?g1.0 = None and ?g2.0 = "[]"]
  obtain question limit p0 p1 ps where "mention_request ?c = Returns (question, limit)"
    and "split ?c ''--limit'' = p0 # p1 # ps" and "parseInt (trim p1) = NaN \<longrightarrow> limit = Num 10"
    using bad_limit_request(1) by blast
  with bad_limit_request(2,3) have c: "\<exists>question. mention_request ?c = Returns (question, Num 10)"
    by auto
  have m: "message_matches (msg_text question_message) = Some (Some quoted_question, ''5'')"
    by (simp only: question_message_def SlackMessage.simps question_match)
  from limit_nonzero_default_10 [where message = question_message and ?g1.0 = "Some quoted_question"
      and ?g2.0 = "''5''"] m
  have d: "positive_number (or_10 (parseInt ''5''))"
    by blast
  have m': "message_matches (msg_text (question_message\<lparr>msg_text := ''!summarize''\<rparr>)) = Some (None, [])"
    by (simp add: bare_command_match)
  from limit_nonzero_default_10
         [where message = "question_message\<lparr>msg_text := ''!summarize''\<rparr>" and ?g1.0 = None
            and ?g2.0 = "[]"] m'
  have e: "or_10 (parseInt []) = Num 10"
    by blast
  from a b c d e show ?thesis by blast
qed

end
